theory Spec2Isabelle
  imports Main "HOL-Library.Sublist"
begin

section \<open>Syntax trees of the host parser\<close>

text \<open>
  The module \<^verbatim>\<open>utils/safe_eval.py\<close> walks the tree that the host's \<^verbatim>\<open>ast.parse\<close>
  returns. The visitor looks at three classes of node by their attributes
  (\<^verbatim>\<open>Name(id, ctx)\<close>, \<^verbatim>\<open>Call(func, args, keywords, starargs, kwargs)\<close>,
  \<^verbatim>\<open>Attribute(value, attr, ctx)\<close>); every other node is seen only through its class
  and through the values of its fields, in the order of \<^verbatim>\<open>_fields\<close>. A field value is
  an AST node, a list, or anything else (an identifier, a number, a string, None).
\<close>

datatype node =
    Name string node
  | Call node "node list" "node list" "node option" "node option"
  | Attribute node string node
  | Node string "field list"
and field =
    AST node
  | Items "field list"
  | Leaf string

text \<open>The name of the class of a node, \<^verbatim>\<open>node.__class__.__name__\<close>.\<close>

fun cls :: "node \<Rightarrow> string" where
  "cls (Name i c) = ''Name''"
| "cls (Call f as ks sa kw) = ''Call''"
| "cls (Attribute v a c) = ''Attribute''"
| "cls (Node k fs) = k"

section \<open>Errors\<close>

text \<open>
  \<^verbatim>\<open>SafeEvalException\<close> is the module's own exception; \<^verbatim>\<open>ValueError\<close> is what
  \<^verbatim>\<open>compileChecked\<close> raises for text that does not parse; \<^verbatim>\<open>AttributeError\<close> is what
  reading a missing attribute raises; \<^verbatim>\<open>HostError\<close> is any exception of the host's
  \<^verbatim>\<open>compile\<close>. Each carries its message.
\<close>

datatype error =
    SafeEvalException string
  | ValueError string
  | AttributeError string
  | HostError string

type_synonym result = "error + unit"

text \<open>Statement sequencing: the second statement runs only if the first did not raise.\<close>

definition andthen :: "result \<Rightarrow> result \<Rightarrow> result" where
  "andthen r s = (case r of Inl e \<Rightarrow> Inl e | Inr u \<Rightarrow> s)"

section \<open>The lists of the module\<close>

text \<open>\<^verbatim>\<open>forbidden_nodes\<close>: the classes Exec, Global, Import and ImportFrom.\<close>

definition forbidden_nodes :: "string set" where
  "forbidden_nodes = set [''Exec'', ''Global'', ''Import'', ''ImportFrom'']"

definition allowed_builtins :: "string set" where
  "allowed_builtins = set [
     ''ArithmeticError'', ''AttributeError'', ''BaseException'', ''Exception'', ''False'',
     ''FloatingPointError'', ''IndexError'', ''KeyError'', ''NameError'', ''None'',
     ''OverflowError'', ''RuntimeError'', ''StandardError'', ''StopIteration'', ''True'',
     ''TypeError'', ''ValueError'', ''ZeroDivisionError'', ''abs'', ''all'', ''any'',
     ''apply'', ''basestring'', ''bin'', ''bool'', ''bytes'', ''callable'', ''chr'', ''cmp'',
     ''complex'', ''dict'', ''divmod'', ''enumerate'', ''filter'', ''float'', ''format'',
     ''frozenset'', ''hash'', ''hex'', ''id'', ''int'', ''isinstance'', ''issubclass'',
     ''iter'', ''len'', ''list'', ''long'', ''map'', ''max'', ''min'', ''next'', ''object'',
     ''oct'', ''ord'', ''pow'', ''print'', ''property'', ''range'', ''reduce'', ''repr'',
     ''reversed'', ''round'', ''set'', ''slice'', ''sorted'', ''str'', ''sum'', ''tuple'',
     ''unichr'', ''unicode'', ''xrange'', ''zip'']"

text \<open>
  \<^verbatim>\<open>forbidden_builtins = set(__builtin__.__dict__.keys()) - allowed_builtins\<close>. The keys
  of the host's builtin namespace are not part of the module: they are the parameter
  \<open>keys\<close>.
\<close>

definition forbidden_builtins :: "string list \<Rightarrow> string set" where
  "forbidden_builtins keys = set keys - allowed_builtins"

section \<open>Messages\<close>

text \<open>
  The translation function \<^verbatim>\<open>_\<close> returns its argument where no translation is
  installed; the messages are modelled untranslated. \<open>quoted s\<close> is \<open>s\<close> between two
  double quotes, \<open>type_repr c\<close> is how \<^verbatim>\<open>%s\<close> prints the class \<open>c\<close> of the module
  \<^verbatim>\<open>_ast\<close>.
\<close>

definition quoted :: "string \<Rightarrow> string" where
  "quoted s = CHR 0x22 # s @ [CHR 0x22]"

definition type_repr :: "string \<Rightarrow> string" where
  "type_repr c = ''<class '' @ [CHR 0x27] @ ''_ast.'' @ c @ [CHR 0x27] @ ''>''"

definition not_safe :: "string \<Rightarrow> error" where
  "not_safe c = SafeEvalException (type_repr c @ '' not safe'')"

definition special_name :: "string \<Rightarrow> error" where
  "special_name i = SafeEvalException (''Access to special names not allowed: '' @ quoted i)"

definition no_identifier :: error where
  "no_identifier = SafeEvalException ''Function has no identifier''"

definition special_function :: "string \<Rightarrow> error" where
  "special_function i =
     SafeEvalException (''Access to special functions not allowed: '' @ quoted i)"

definition access_denied :: error where
  "access_denied = SafeEvalException ''Access denied to attribute''"

definition special_attribute :: "string \<Rightarrow> error" where
  "special_attribute a =
     SafeEvalException (''Access to special attributes not allowed: '' @ quoted a)"

section \<open>CheckNodeVisitor\<close>

text \<open>
  \<^verbatim>\<open>ast.NodeVisitor.visit\<close> calls the method \<^verbatim>\<open>visit_<class name>\<close> when the visitor
  has one and \<^verbatim>\<open>generic_visit\<close> otherwise; \<^verbatim>\<open>ast.NodeVisitor.generic_visit\<close> goes
  through the fields of the node in order and visits every field that is an AST node
  and, of a field that is a list, every item that is an AST node. The class overrides
  \<^verbatim>\<open>generic_visit\<close>, so the test against \<^verbatim>\<open>forbidden_nodes\<close> runs before the children
  of any node are visited. A method called on a node without the attribute it reads
  raises as Python does (\<^verbatim>\<open>hasattr(attr, 'attr')\<close> is tested by the source itself).
  Of the nodes of a tree only a Name has the attribute \<^verbatim>\<open>id\<close>: \<open>hasattr_id f\<close> is
  \<^verbatim>\<open>hasattr(call.func, 'id')\<close>, the case distinction on the target in \<open>visit_Call\<close>.
\<close>

fun hasattr_id :: "node \<Rightarrow> bool" where
  "hasattr_id (Name i c) = True"
| "hasattr_id n = False"

function visit :: "string list \<Rightarrow> node \<Rightarrow> result"
and generic_visit :: "string list \<Rightarrow> node \<Rightarrow> result"
and visit_Name :: "string list \<Rightarrow> node \<Rightarrow> result"
and visit_Call :: "string list \<Rightarrow> node \<Rightarrow> result"
and visit_Attribute :: "string list \<Rightarrow> node \<Rightarrow> result"
and visit_fields :: "string list \<Rightarrow> field list \<Rightarrow> result"
and visit_items :: "string list \<Rightarrow> field list \<Rightarrow> result"
and visit_nodes :: "string list \<Rightarrow> node list \<Rightarrow> result"
and visit_opt :: "string list \<Rightarrow> node option \<Rightarrow> result"
where
  "visit keys n =
     (if cls n = ''Name'' then visit_Name keys n
      else if cls n = ''Call'' then visit_Call keys n
      else if cls n = ''Attribute'' then visit_Attribute keys n
      else generic_visit keys n)"
| "generic_visit keys n =
     (if cls n \<in> forbidden_nodes then Inl (not_safe (cls n))
      else case n of
        Name i c \<Rightarrow> visit keys c
      | Call f as ks sa kw \<Rightarrow>
          andthen (visit keys f) (andthen (visit_nodes keys as) (andthen (visit_nodes keys ks)
            (andthen (visit_opt keys sa) (visit_opt keys kw))))
      | Attribute v a c \<Rightarrow> andthen (visit keys v) (visit keys c)
      | Node k fs \<Rightarrow> visit_fields keys fs)"
| "visit_Name keys n =
     (case n of
        Name i c \<Rightarrow>
          if take 2 i = ''__'' \<or> i \<in> forbidden_builtins keys then Inl (special_name i)
          else generic_visit keys n
      | _ \<Rightarrow> Inl (AttributeError ''id''))"
| "visit_Call keys n =
     (case n of
        Call f as ks sa kw \<Rightarrow>
          (case f of
             Name i c \<Rightarrow>
               if take 2 i = ''__'' \<or> i \<in> forbidden_builtins keys
               then Inl (special_function i)
               else generic_visit keys n
           | _ \<Rightarrow> Inl no_identifier)
      | _ \<Rightarrow> Inl (AttributeError ''func''))"
| "visit_Attribute keys n =
     (case n of
        Attribute v a c \<Rightarrow>
          if take 2 a = ''__'' \<or> take 5 a = ''func_'' \<or> take 3 a = ''im_'' \<or> take 3 a = ''tb_''
          then Inl (special_attribute a)
          else generic_visit keys n
      | _ \<Rightarrow> Inl access_denied)"
| "visit_fields keys [] = Inr ()"
| "visit_fields keys (AST n # r) = andthen (visit keys n) (visit_fields keys r)"
| "visit_fields keys (Items xs # r) = andthen (visit_items keys xs) (visit_fields keys r)"
| "visit_fields keys (Leaf s # r) = visit_fields keys r"
| "visit_items keys [] = Inr ()"
| "visit_items keys (AST n # r) = andthen (visit keys n) (visit_items keys r)"
| "visit_items keys (Items xs # r) = visit_items keys r"
| "visit_items keys (Leaf s # r) = visit_items keys r"
| "visit_nodes keys [] = Inr ()"
| "visit_nodes keys (n # r) = andthen (visit keys n) (visit_nodes keys r)"
| "visit_opt keys None = Inr ()"
| "visit_opt keys (Some n) = visit keys n"
  by pat_completeness auto

text \<open>
  Every call is on the same node by a method further down the chain
  \<open>visit\<close>, \<open>visit_<class>\<close>, \<open>generic_visit\<close>, or on a part of the node.
\<close>

termination
  by (relation "measure (case_sum
        (case_sum
          (case_sum (\<lambda>(k, n). 3 * size n + 2) (\<lambda>(k, n). 3 * size n))
          (case_sum (\<lambda>(k, n). 3 * size n + 1) (\<lambda>(k, n). 3 * size n + 1)))
        (case_sum
          (case_sum (\<lambda>(k, n). 3 * size n + 1) (\<lambda>(k, fs). 3 * size_list size fs + 1))
          (case_sum (\<lambda>(k, fs). 3 * size_list size fs + 1)
            (case_sum (\<lambda>(k, ns). 3 * size_list size ns + 1)
              (\<lambda>(k, opt). 3 * size_option size opt + 1)))))") auto

section \<open>compileChecked\<close>

text \<open>
  The host is what the module imports and does not define: the keys of
  \<^verbatim>\<open>__builtin__.__dict__\<close>; \<^verbatim>\<open>ast.parse(code, filename, mode)\<close>, which returns a tree or
  raises an exception \<open>e\<close>, kept as the text \<^verbatim>\<open>unicode(e)\<close>; and the builtin
  \<^verbatim>\<open>compile(tree, filename, mode)\<close>, which returns a code object or raises.
\<close>

record 'c host =
  builtin_keys :: "string list"
  ast_parse :: "string \<Rightarrow> string \<Rightarrow> string \<Rightarrow> string + node"
  compile_tree :: "node \<Rightarrow> string \<Rightarrow> string \<Rightarrow> error + 'c"

definition compileChecked ::
  "'c host \<Rightarrow> string \<Rightarrow> string \<Rightarrow> string \<Rightarrow> bool \<Rightarrow> error + 'c" where
  "compileChecked h code mode filename ignoresecurity =
     (case ast_parse h code filename mode of
        Inl e \<Rightarrow> Inl (ValueError (''Unable to parse file: '' @ e))
      | Inr tree \<Rightarrow>
          (case (if \<not> ignoresecurity then visit (builtin_keys h) tree else Inr ()) of
             Inl x \<Rightarrow> Inl x
           | Inr u \<Rightarrow> compile_tree h tree filename mode))"

section \<open>The order of the traversal and the rule of a node\<close>

text \<open>
  \<open>preorder n\<close> lists the nodes of the tree under \<open>n\<close>, each node before its parts,
  the parts in the order of the fields. \<open>rule keys n\<close> is what the visitor raises at
  \<open>n\<close> itself, before it looks at any part of \<open>n\<close>; \<open>first_violation\<close> is the first
  such error along a list of nodes.
\<close>

fun preorder :: "node \<Rightarrow> node list"
and preorder_fields :: "field list \<Rightarrow> node list"
and preorder_items :: "field list \<Rightarrow> node list"
and preorder_nodes :: "node list \<Rightarrow> node list"
and preorder_opt :: "node option \<Rightarrow> node list"
where
  "preorder (Name i c) = Name i c # preorder c"
| "preorder (Call f as ks sa kw) =
     Call f as ks sa kw #
       preorder f @ preorder_nodes as @ preorder_nodes ks @ preorder_opt sa @ preorder_opt kw"
| "preorder (Attribute v a c) = Attribute v a c # preorder v @ preorder c"
| "preorder (Node k fs) = Node k fs # preorder_fields fs"
| "preorder_fields [] = []"
| "preorder_fields (AST n # r) = preorder n @ preorder_fields r"
| "preorder_fields (Items xs # r) = preorder_items xs @ preorder_fields r"
| "preorder_fields (Leaf s # r) = preorder_fields r"
| "preorder_items [] = []"
| "preorder_items (AST n # r) = preorder n @ preorder_items r"
| "preorder_items (Items xs # r) = preorder_items r"
| "preorder_items (Leaf s # r) = preorder_items r"
| "preorder_nodes [] = []"
| "preorder_nodes (n # r) = preorder n @ preorder_nodes r"
| "preorder_opt None = []"
| "preorder_opt (Some n) = preorder n"

definition rule :: "string list \<Rightarrow> node \<Rightarrow> error option" where
  "rule keys n =
     (case n of
        Name i c \<Rightarrow>
          if take 2 i = ''__'' \<or> i \<in> forbidden_builtins keys then Some (special_name i)
          else None
      | Call f as ks sa kw \<Rightarrow>
          (case f of
             Name i c \<Rightarrow>
               if take 2 i = ''__'' \<or> i \<in> forbidden_builtins keys
               then Some (special_function i) else None
           | _ \<Rightarrow> Some no_identifier)
      | Attribute v a c \<Rightarrow>
          if take 2 a = ''__'' \<or> take 5 a = ''func_'' \<or> take 3 a = ''im_'' \<or> take 3 a = ''tb_''
          then Some (special_attribute a) else None
      | Node k fs \<Rightarrow>
          if k = ''Name'' then Some (AttributeError ''id'')
          else if k = ''Call'' then Some (AttributeError ''func'')
          else if k = ''Attribute'' then Some access_denied
          else if k \<in> forbidden_nodes then Some (not_safe k)
          else None)"

fun first_violation :: "string list \<Rightarrow> node list \<Rightarrow> error option" where
  "first_violation keys [] = None"
| "first_violation keys (n # ns) =
     (case rule keys n of Some e \<Rightarrow> Some e | None \<Rightarrow> first_violation keys ns)"

definition outcome :: "error option \<Rightarrow> result" where
  "outcome v = (case v of None \<Rightarrow> Inr () | Some e \<Rightarrow> Inl e)"

definition orelse :: "error option \<Rightarrow> error option \<Rightarrow> error option" where
  "orelse a b = (case a of Some e \<Rightarrow> Some e | None \<Rightarrow> b)"

text \<open>
  \<open>visited keys n\<close> lists the nodes on which the method \<^verbatim>\<open>visit\<close> is called while
  \<open>visit keys n\<close> runs, in the order of the calls: the node, and its parts as long as
  nothing has raised. \<open>after r l\<close> is what a statement running after \<open>r\<close> adds.
\<close>

definition after :: "result \<Rightarrow> node list \<Rightarrow> node list" where
  "after r l = (case r of Inl e \<Rightarrow> [] | Inr u \<Rightarrow> l)"

function visited :: "string list \<Rightarrow> node \<Rightarrow> node list"
and visited_fields :: "string list \<Rightarrow> field list \<Rightarrow> node list"
and visited_items :: "string list \<Rightarrow> field list \<Rightarrow> node list"
and visited_nodes :: "string list \<Rightarrow> node list \<Rightarrow> node list"
and visited_opt :: "string list \<Rightarrow> node option \<Rightarrow> node list"
where
  "visited keys (Name i c) =
     Name i c #
       (if take 2 i = ''__'' \<or> i \<in> forbidden_builtins keys then [] else visited keys c)"
| "visited keys (Call f as ks sa kw) =
     Call f as ks sa kw #
       (case f of
          Name i c \<Rightarrow>
            if take 2 i = ''__'' \<or> i \<in> forbidden_builtins keys then []
            else visited keys f @ after (visit keys f)
              (visited_nodes keys as @ after (visit_nodes keys as)
                (visited_nodes keys ks @ after (visit_nodes keys ks)
                  (visited_opt keys sa @ after (visit_opt keys sa) (visited_opt keys kw))))
        | _ \<Rightarrow> [])"
| "visited keys (Attribute v a c) =
     Attribute v a c #
       (if take 2 a = ''__'' \<or> take 5 a = ''func_'' \<or> take 3 a = ''im_'' \<or> take 3 a = ''tb_''
        then []
        else visited keys v @ after (visit keys v) (visited keys c))"
| "visited keys (Node k fs) =
     Node k fs #
       (if k = ''Name'' \<or> k = ''Call'' \<or> k = ''Attribute'' \<or> k \<in> forbidden_nodes then []
        else visited_fields keys fs)"
| "visited_fields keys [] = []"
| "visited_fields keys (AST n # r) =
     visited keys n @ after (visit keys n) (visited_fields keys r)"
| "visited_fields keys (Items xs # r) =
     visited_items keys xs @ after (visit_items keys xs) (visited_fields keys r)"
| "visited_fields keys (Leaf s # r) = visited_fields keys r"
| "visited_items keys [] = []"
| "visited_items keys (AST n # r) =
     visited keys n @ after (visit keys n) (visited_items keys r)"
| "visited_items keys (Items xs # r) = visited_items keys r"
| "visited_items keys (Leaf s # r) = visited_items keys r"
| "visited_nodes keys [] = []"
| "visited_nodes keys (n # r) =
     visited keys n @ after (visit keys n) (visited_nodes keys r)"
| "visited_opt keys None = []"
| "visited_opt keys (Some n) = visited keys n"
  by pat_completeness auto

termination
  by (relation "measure (case_sum
        (case_sum (\<lambda>(k, n). size n) (\<lambda>(k, fs). size_list size fs))
        (case_sum (\<lambda>(k, fs). size_list size fs)
          (case_sum (\<lambda>(k, ns). size_list size ns) (\<lambda>(k, opt). size_option size opt))))")
    auto

text \<open>The nodes of a list up to and including the first one with a violation.\<close>

fun upto_first :: "string list \<Rightarrow> node list \<Rightarrow> node list" where
  "upto_first keys [] = []"
| "upto_first keys (n # ns) =
     n # (case rule keys n of Some e \<Rightarrow> [] | None \<Rightarrow> upto_first keys ns)"

text \<open>
  An error is a safety violation when it is a \<^verbatim>\<open>SafeEvalException\<close>. A tree is as the
  parser builds it when the nodes of the classes Name, Call and Attribute carry their
  attributes: no node kept by class and fields only is of one of these classes.
\<close>

definition safety_violation :: "error \<Rightarrow> bool" where
  "safety_violation e = (case e of SafeEvalException m \<Rightarrow> True | _ \<Rightarrow> False)"

text \<open>The message of an exception.\<close>

fun message :: "error \<Rightarrow> string" where
  "message (SafeEvalException m) = m"
| "message (ValueError m) = m"
| "message (AttributeError m) = m"
| "message (HostError m) = m"

definition generic_ok :: "node \<Rightarrow> bool" where
  "generic_ok n =
     (case n of Node k fs \<Rightarrow> k \<noteq> ''Name'' \<and> k \<noteq> ''Call'' \<and> k \<noteq> ''Attribute'' | _ \<Rightarrow> True)"

definition parsed :: "node \<Rightarrow> bool" where
  "parsed t = list_all generic_ok (preorder t)"

definition reserved_prefix :: "string \<Rightarrow> bool" where
  "reserved_prefix a =
     (take 2 a = ''__'' \<or> take 5 a = ''func_'' \<or> take 3 a = ''im_'' \<or> take 3 a = ''tb_'')"

section \<open>A host and the trees of the scenarios\<close>

text \<open>
  The trees that CPython 2.7 builds for the texts of the scenarios, the names of its
  module \<^verbatim>\<open>__builtin__\<close>, and a host that parses these texts, rejects a text with a
  NUL byte and any other text with the parser's messages, and compiles a tree to a
  code object, kept as the tree, the filename and the mode, except that its
  \<^verbatim>\<open>compile\<close> raises CPython's SyntaxError for the tree of \<^verbatim>\<open>return 1\<close>, a return
  statement outside a function, which the parser accepts. They are the concrete
  inputs at which the theorems below are evaluated.
\<close>

definition Load :: node where
  "Load = Node ''Load'' []"

definition tree_arith :: node where
  "tree_arith =
     Node ''Expression'' [AST (Node ''BinOp'' [AST (Name ''x'' Load), AST (Node ''Add'' []),
       AST (Node ''BinOp'' [AST (Name ''y'' Load), AST (Node ''Mult'' []),
         AST (Node ''Num'' [Leaf ''2''])])])]"

definition tree_open :: node where
  "tree_open =
     Node ''Expression''
       [AST (Call (Name ''open'' Load) [Node ''Str'' [Leaf ''/etc/passwd'']] [] None None)]"

definition tree_upper :: node where
  "tree_upper =
     Node ''Expression''
       [AST (Call (Attribute (Name ''x'' Load) ''upper'' Load) [] [] None None)]"

definition tree_import :: node where
  "tree_import =
     Node ''Module''
       [Items [AST (Node ''Import'' [Items [AST (Node ''alias'' [Leaf ''os'', Leaf ''None''])]])]]"

definition tree_dunder :: node where
  "tree_dunder = Node ''Expression'' [AST (Attribute (Name ''x'' Load) ''__class__'' Load)]"

definition tree_open_eval :: node where
  "tree_open_eval =
     Node ''Expression''
       [AST (Node ''List'' [Items [AST (Name ''open'' Load), AST (Name ''eval'' Load)], AST Load])]"

definition tree_open_import :: node where
  "tree_open_import =
     Node ''Module''
       [Items [AST (Node ''Expr'' [AST (Name ''open'' Load)]),
          AST (Node ''Import'' [Items [AST (Node ''alias'' [Leaf ''os'', Leaf ''None''])]])]]"

definition tree_open_dunder :: node where
  "tree_open_dunder =
     Node ''Expression''
       [AST (Node ''List''
          [Items [AST (Name ''open'' Load), AST (Attribute (Name ''x'' Load) ''__class__'' Load)],
           AST Load])]"

definition tree_return :: node where
  "tree_return =
     Node ''Module'' [Items [AST (Node ''Return'' [AST (Node ''Num'' [Leaf ''1''])])]]"

definition cpython27_builtin_keys :: "string list" where
  "cpython27_builtin_keys = [
     ''ArithmeticError'', ''AssertionError'', ''AttributeError'', ''BaseException'',
     ''BufferError'', ''BytesWarning'', ''DeprecationWarning'', ''EOFError'', ''Ellipsis'',
     ''EnvironmentError'', ''Exception'', ''False'', ''FloatingPointError'', ''FutureWarning'',
     ''GeneratorExit'', ''IOError'', ''ImportError'', ''ImportWarning'', ''IndentationError'',
     ''IndexError'', ''KeyError'', ''KeyboardInterrupt'', ''LookupError'', ''MemoryError'',
     ''NameError'', ''None'', ''NotImplemented'', ''NotImplementedError'', ''OSError'',
     ''OverflowError'', ''PendingDeprecationWarning'', ''ReferenceError'', ''RuntimeError'',
     ''RuntimeWarning'', ''StandardError'', ''StopIteration'', ''SyntaxError'',
     ''SyntaxWarning'', ''SystemError'', ''SystemExit'', ''TabError'', ''True'', ''TypeError'',
     ''UnboundLocalError'', ''UnicodeDecodeError'', ''UnicodeEncodeError'', ''UnicodeError'',
     ''UnicodeTranslateError'', ''UnicodeWarning'', ''UserWarning'', ''ValueError'',
     ''Warning'', ''ZeroDivisionError'', ''__debug__'', ''__doc__'', ''__import__'',
     ''__name__'', ''__package__'', ''abs'', ''all'', ''any'', ''apply'', ''basestring'',
     ''bin'', ''bool'', ''buffer'', ''bytearray'', ''bytes'', ''callable'', ''chr'',
     ''classmethod'', ''cmp'', ''coerce'', ''compile'', ''complex'', ''copyright'',
     ''credits'', ''delattr'', ''dict'', ''dir'', ''divmod'', ''enumerate'', ''eval'',
     ''execfile'', ''exit'', ''file'', ''filter'', ''float'', ''format'', ''frozenset'',
     ''getattr'', ''globals'', ''hasattr'', ''hash'', ''help'', ''hex'', ''id'', ''input'',
     ''int'', ''intern'', ''isinstance'', ''issubclass'', ''iter'', ''len'', ''license'',
     ''list'', ''locals'', ''long'', ''map'', ''max'', ''memoryview'', ''min'', ''next'',
     ''object'', ''oct'', ''open'', ''ord'', ''pow'', ''print'', ''property'', ''quit'',
     ''range'', ''raw_input'', ''reduce'', ''reload'', ''repr'', ''reversed'', ''round'',
     ''set'', ''setattr'', ''slice'', ''sorted'', ''staticmethod'', ''str'', ''sum'',
     ''super'', ''tuple'', ''type'', ''unichr'', ''unicode'', ''vars'', ''xrange'', ''zip'']"

definition example_parse :: "string \<Rightarrow> string \<Rightarrow> string \<Rightarrow> string + node" where
  "example_parse code filename mode =
     (if CHR 0x00 \<in> set code then Inl ''compile() expected string without null bytes''
      else if code = ''x + y * 2'' \<and> mode = ''eval'' then Inr tree_arith
      else if code = ''open('/etc/passwd')'' \<and> mode = ''eval'' then Inr tree_open
      else if code = ''x.upper()'' \<and> mode = ''eval'' then Inr tree_upper
      else if code = ''import os'' \<and> mode = ''exec'' then Inr tree_import
      else if code = ''x.__class__'' \<and> mode = ''eval'' then Inr tree_dunder
      else if code = ''[open, eval]'' \<and> mode = ''eval'' then Inr tree_open_eval
      else if code = ''open; import os'' \<and> mode = ''exec'' then Inr tree_open_import
      else if code = ''[open, x.__class__]'' \<and> mode = ''eval'' then Inr tree_open_dunder
      else if code = ''return 1'' \<and> mode = ''exec'' then Inr tree_return
      else if code = ''(1+'' then Inl (''unexpected EOF while parsing ('' @ filename @ '', line 1)'')
      else Inl (''invalid syntax ('' @ filename @ '', line 1)''))"

definition example_compile ::
  "node \<Rightarrow> string \<Rightarrow> string \<Rightarrow> error + node \<times> string \<times> string" where
  "example_compile tree filename mode =
     (if tree = tree_return
      then Inl (HostError
        ([CHR 0x27] @ ''return'' @ [CHR 0x27] @ '' outside function ('' @ filename @
         '', line 1)''))
      else Inr (tree, filename, mode))"

definition example_host :: "(node \<times> string \<times> string) host" where
  "example_host =
     \<lparr>builtin_keys = cpython27_builtin_keys,
      ast_parse = example_parse,
      compile_tree = example_compile\<rparr>"

section \<open>The visitor, node by node\<close>

declare visit.simps [simp del] generic_visit.simps [simp del] visit_Name.simps [simp del]
  visit_Call.simps [simp del] visit_Attribute.simps [simp del]

lemma special_classes_not_forbidden:
  "''Name'' \<notin> forbidden_nodes" "''Call'' \<notin> forbidden_nodes"
  "''Attribute'' \<notin> forbidden_nodes"
  by (simp_all add: forbidden_nodes_def)

lemma visit_Name_eq:
  "visit keys (Name i c) =
     (if take 2 i = ''__'' \<or> i \<in> forbidden_builtins keys then Inl (special_name i)
      else visit keys c)"
  by (simp add: visit.simps [of keys "Name i c"] visit_Name.simps [of keys "Name i c"]
      generic_visit.simps [of keys "Name i c"] special_classes_not_forbidden)

lemma visit_Call_eq:
  "visit keys (Call f as ks sa kw) =
     (case f of
        Name i c \<Rightarrow>
          if take 2 i = ''__'' \<or> i \<in> forbidden_builtins keys then Inl (special_function i)
          else andthen (visit keys f) (andthen (visit_nodes keys as)
            (andthen (visit_nodes keys ks) (andthen (visit_opt keys sa) (visit_opt keys kw))))
      | _ \<Rightarrow> Inl no_identifier)"
  by (simp add: visit.simps [of keys "Call f as ks sa kw"]
      visit_Call.simps [of keys "Call f as ks sa kw"]
      generic_visit.simps [of keys "Call f as ks sa kw"] special_classes_not_forbidden
      split: node.split)

lemma visit_Attribute_eq:
  "visit keys (Attribute v a c) =
     (if take 2 a = ''__'' \<or> take 5 a = ''func_'' \<or> take 3 a = ''im_'' \<or> take 3 a = ''tb_''
      then Inl (special_attribute a)
      else andthen (visit keys v) (visit keys c))"
  by (simp add: visit.simps [of keys "Attribute v a c"]
      visit_Attribute.simps [of keys "Attribute v a c"]
      generic_visit.simps [of keys "Attribute v a c"] special_classes_not_forbidden)

lemma visit_Call_method:
  "visit_Call keys (Call f as ks sa kw) =
     (case f of
        Name i c \<Rightarrow>
          if take 2 i = ''__'' \<or> i \<in> forbidden_builtins keys then Inl (special_function i)
          else generic_visit keys (Call f as ks sa kw)
      | _ \<Rightarrow> Inl no_identifier)"
  by (simp add: visit_Call.simps [of keys "Call f as ks sa kw"])

lemma visit_methods_Node:
  "visit_Name keys (Node k fs) = Inl (AttributeError ''id'')"
  "visit_Call keys (Node k fs) = Inl (AttributeError ''func'')"
  "visit_Attribute keys (Node k fs) = Inl access_denied"
  by (simp_all add: visit_Name.simps [of keys "Node k fs"]
      visit_Call.simps [of keys "Node k fs"] visit_Attribute.simps [of keys "Node k fs"])

lemma visit_Node_eq:
  "visit keys (Node k fs) =
     (if k = ''Name'' then Inl (AttributeError ''id'')
      else if k = ''Call'' then Inl (AttributeError ''func'')
      else if k = ''Attribute'' then Inl access_denied
      else if k \<in> forbidden_nodes then Inl (not_safe k)
      else visit_fields keys fs)"
  by (simp add: visit.simps [of keys "Node k fs"] visit_methods_Node
      generic_visit.simps [of keys "Node k fs"])

section \<open>The visitor returns the first violation in pre-order\<close>

lemma orelse_simps [simp]: "orelse None b = b" "orelse (Some e) b = Some e"
  by (simp_all add: orelse_def)

lemma first_violation_append:
  "first_violation keys (xs @ ys) = orelse (first_violation keys xs) (first_violation keys ys)"
  by (induction xs) (simp_all split: option.split)

lemma andthen_outcome: "andthen (outcome a) (outcome b) = outcome (orelse a b)"
  by (cases a) (simp_all add: andthen_def outcome_def)

lemma visit_first_violation:
  "visit keys n = outcome (first_violation keys (preorder n))"
  "visit_fields keys fs = outcome (first_violation keys (preorder_fields fs))"
  "visit_items keys xs = outcome (first_violation keys (preorder_items xs))"
  "visit_nodes keys ns = outcome (first_violation keys (preorder_nodes ns))"
  "visit_opt keys opt = outcome (first_violation keys (preorder_opt opt))"
proof (induction n and fs and xs and ns and opt
    rule: preorder_preorder_fields_preorder_items_preorder_nodes_preorder_opt.induct)
  case (1 i c)
  then show ?case by (simp add: visit_Name_eq rule_def outcome_def)
next
  case (2 f as ks sa kw)
  then show ?case
    by (cases f)
      (simp_all add: visit_Call_eq rule_def first_violation_append andthen_outcome,
        simp_all add: outcome_def)
next
  case (3 v a c)
  then show ?case
    by (simp add: visit_Attribute_eq rule_def first_violation_append andthen_outcome)
      (simp add: outcome_def)
next
  case (4 k fs)
  then show ?case by (simp add: visit_Node_eq rule_def outcome_def)
qed (simp_all add: first_violation_append andthen_outcome, simp_all add: outcome_def)

lemma upto_first_append:
  "upto_first keys (xs @ ys) =
     upto_first keys xs @ after (outcome (first_violation keys xs)) (upto_first keys ys)"
  by (induction xs) (simp_all add: after_def outcome_def split: option.split)

lemma visited_upto_first:
  "visited keys n = upto_first keys (preorder n)"
  "visited_fields keys fs = upto_first keys (preorder_fields fs)"
  "visited_items keys xs = upto_first keys (preorder_items xs)"
  "visited_nodes keys ns = upto_first keys (preorder_nodes ns)"
  "visited_opt keys opt = upto_first keys (preorder_opt opt)"
proof (induction n and fs and xs and ns and opt
    rule: preorder_preorder_fields_preorder_items_preorder_nodes_preorder_opt.induct)
  case (1 i c)
  then show ?case by (simp add: rule_def)
next
  case (2 f as ks sa kw)
  then show ?case
    by (cases f)
      (auto simp add: rule_def upto_first_append visit_first_violation first_violation_append
        andthen_outcome split: if_splits)
next
  case (3 v a c)
  then show ?case
    by (simp add: rule_def upto_first_append visit_first_violation)
next
  case (4 k fs)
  then show ?case by (simp add: rule_def)
qed (simp_all add: upto_first_append visit_first_violation)

lemma first_violation_split:
  assumes "ns = pre @ n # post" and "\<forall>m\<in>set pre. rule keys m = None"
    and "rule keys n = Some e"
  shows "first_violation keys ns = Some e" and "upto_first keys ns = pre @ [n]"
  using assms by (induction pre arbitrary: ns) simp_all

lemma first_violation_clean:
  assumes "\<forall>m\<in>set ns. rule keys m = None"
  shows "first_violation keys ns = None" and "upto_first keys ns = ns"
  using assms by (induction ns) simp_all

lemma first_violation_mem:
  assumes "n \<in> set ns" and "rule keys n = Some e"
  shows "\<exists>e'. first_violation keys ns = Some e'"
  using assms by (induction ns) (auto split: option.split)

lemma rule_safety:
  assumes "generic_ok n" and "rule keys n = Some e"
  shows "safety_violation e"
  using assms
  by (auto simp add: generic_ok_def rule_def safety_violation_def special_name_def
      special_function_def no_identifier_def special_attribute_def not_safe_def
      split: node.splits if_splits)

lemma first_violation_safety:
  assumes "list_all generic_ok ns" and "first_violation keys ns = Some e"
  shows "safety_violation e"
  using assms by (induction ns) (auto split: option.splits dest: rule_safety)

lemma preorder_self: "\<exists>r. preorder n = n # r"
  by (cases n) simp_all

lemma rule_visit:
  assumes "rule keys n = Some e"
  shows "visit keys n = Inl e"
proof -
  obtain r where "preorder n = n # r" using preorder_self by blast
  with assms show ?thesis by (simp add: visit_first_violation outcome_def)
qed

lemma open_forbidden: "''open'' \<in> forbidden_builtins cpython27_builtin_keys"
  by (simp add: forbidden_builtins_def cpython27_builtin_keys_def allowed_builtins_def)

lemma eval_forbidden: "''eval'' \<in> forbidden_builtins cpython27_builtin_keys"
  by (simp add: forbidden_builtins_def cpython27_builtin_keys_def allowed_builtins_def)

lemma x_y_not_forbidden:
  "''x'' \<notin> forbidden_builtins cpython27_builtin_keys"
  "''y'' \<notin> forbidden_builtins cpython27_builtin_keys"
  by (simp_all add: forbidden_builtins_def cpython27_builtin_keys_def)

lemma reject_first:
  assumes "preorder t = pre @ n # post" and "\<forall>m\<in>set pre. rule keys m = None"
    and "rule keys n = Some e"
  shows "visit keys t = Inl e"
  using first_violation_split(1) [OF assms] by (simp add: visit_first_violation outcome_def)

lemma reject_some:
  assumes "n \<in> set (preorder t)" and "rule keys n = Some e0"
  shows "\<exists>e. visit keys t = Inl e \<and> first_violation keys (preorder t) = Some e \<and>
    (parsed t \<longrightarrow> safety_violation e)"
proof -
  obtain e where e: "first_violation keys (preorder t) = Some e"
    using first_violation_mem [OF assms] by blast
  then have "visit keys t = Inl e" by (simp add: visit_first_violation outcome_def)
  moreover have "parsed t \<longrightarrow> safety_violation e"
    using e first_violation_safety [of "preorder t" keys e] by (simp add: parsed_def)
  ultimately show ?thesis using e by blast
qed

lemma compileChecked_guard:
  assumes "ast_parse h code filename mode = Inr tree"
    and "visit (builtin_keys h) tree = Inl e"
  shows "compileChecked h code mode filename False = Inl e"
  using assms by (simp add: compileChecked_def)

lemma sublist_quoted: "sublist i (p @ quoted i)"
proof -
  have "p @ quoted i = (p @ [CHR 0x22]) @ i @ [CHR 0x22]" by (simp add: quoted_def)
  then show ?thesis unfolding sublist_def by blast
qed

lemma sublist_after: "sublist d (p @ d)"
proof -
  have "p @ d = p @ d @ []" by simp
  then show ?thesis unfolding sublist_def by blast
qed

lemma sublist_after_part:
  assumes "sublist f d"
  shows "sublist f (p @ d)"
proof -
  obtain ps ss where "d = ps @ f @ ss" using assms unfolding sublist_def by blast
  then have "p @ d = (p @ ps) @ f @ ss" by simp
  then show ?thesis unfolding sublist_def by blast
qed

lemma names_identifier:
  "sublist i (message (special_name i))"
  "sublist i (message (special_function i))"
  "sublist i (message (special_attribute i))"
  by (simp_all only: special_name_def special_function_def special_attribute_def message.simps
      sublist_quoted)

lemma names_class: "sublist k (message (not_safe k))"
proof -
  have "message (not_safe k) =
      (''<class '' @ [CHR 0x27] @ ''_ast.'') @ k @ ([CHR 0x27] @ ''>'' @ '' not safe'')"
    by (simp add: not_safe_def type_repr_def)
  then show ?thesis unfolding sublist_def by blast
qed

section \<open>The claims\<close>

text \<open>
  C1, as amended. Let \<open>i\<close> begin with \<^verbatim>\<open>__\<close> or be in \<^verbatim>\<open>forbidden_builtins\<close>, and let
  the tree of a text have a node \<open>n\<close> that is the name \<open>i\<close> or a call whose target is
  the name \<open>i\<close>. Then \<^verbatim>\<open>compileChecked\<close> without the skip flag raises: its error is the
  first violation of the tree in pre-order, a \<^verbatim>\<open>SafeEvalException\<close> on a tree as the
  parser builds it. The guard at \<open>n\<close> itself raises the violation \<open>e\<close> that names \<open>i\<close>
  (of the name rule at a name, of the call rule at a call), and \<^verbatim>\<open>compileChecked\<close>
  raises this \<open>e\<close> whenever no node before \<open>n\<close> in pre-order has a violation. A name
  that neither begins with \<^verbatim>\<open>__\<close> nor is forbidden is permitted by the name rule:
  the guard goes on into the node.
\<close>

theorem C1_name_rule:
  "(ast_parse h code filename mode = Inr tree \<and> n \<in> set (preorder tree) \<and>
    (n = Name i c \<or> n = Call (Name i c) as ks sa kw) \<and>
    (take 2 i = ''__'' \<or> i \<in> forbidden_builtins (builtin_keys h)) \<longrightarrow>
      (\<exists>e'. compileChecked h code mode filename False = Inl e' \<and>
         first_violation (builtin_keys h) (preorder tree) = Some e' \<and>
         (parsed tree \<longrightarrow> safety_violation e')) \<and>
      (let e = (if hasattr_id n then special_name i else special_function i) in
         rule (builtin_keys h) n = Some e \<and> visit (builtin_keys h) n = Inl e \<and>
         sublist i (message e) \<and>
         (\<forall>pre post.
            preorder tree = pre @ n # post \<and> (\<forall>m\<in>set pre. rule (builtin_keys h) m = None) \<longrightarrow>
              compileChecked h code mode filename False = Inl e))) \<and>
   (\<not> (take 2 j = ''__'' \<or> j \<in> forbidden_builtins keys) \<longrightarrow>
      rule keys (Name j c) = None \<and>
      visit_Name keys (Name j c) = generic_visit keys (Name j c) \<and>
      visit keys (Name j c) = visit keys c)"
proof (intro conjI impI)
  assume h: "ast_parse h code filename mode = Inr tree \<and> n \<in> set (preorder tree) \<and>
    (n = Name i c \<or> n = Call (Name i c) as ks sa kw) \<and>
    (take 2 i = ''__'' \<or> i \<in> forbidden_builtins (builtin_keys h))"
  define e where "e = (if hasattr_id n then special_name i else special_function i)"
  have r: "rule (builtin_keys h) n = Some e"
    using h by (auto simp add: rule_def e_def)
  obtain e' where e': "visit (builtin_keys h) tree = Inl e'"
    "first_violation (builtin_keys h) (preorder tree) = Some e'"
    "parsed tree \<longrightarrow> safety_violation e'"
    using reject_some [of n tree "builtin_keys h" e] h r by blast
  show "\<exists>e'. compileChecked h code mode filename False = Inl e' \<and>
         first_violation (builtin_keys h) (preorder tree) = Some e' \<and>
         (parsed tree \<longrightarrow> safety_violation e')"
    using e' h compileChecked_guard [of h code filename mode tree e'] by blast
  have n: "sublist i (message e)"
    by (simp add: e_def names_identifier)
  have f: "\<forall>pre post.
            preorder tree = pre @ n # post \<and> (\<forall>m\<in>set pre. rule (builtin_keys h) m = None) \<longrightarrow>
              compileChecked h code mode filename False = Inl e"
  proof (intro allI impI)
    fix pre post
    assume "preorder tree = pre @ n # post \<and> (\<forall>m\<in>set pre. rule (builtin_keys h) m = None)"
    then have "visit (builtin_keys h) tree = Inl e"
      using reject_first [of tree pre n post "builtin_keys h" e] r by blast
    then show "compileChecked h code mode filename False = Inl e"
      using h compileChecked_guard [of h code filename mode tree e] by blast
  qed
  show "let e = (if hasattr_id n then special_name i else special_function i) in
         rule (builtin_keys h) n = Some e \<and> visit (builtin_keys h) n = Inl e \<and>
         sublist i (message e) \<and>
         (\<forall>pre post.
            preorder tree = pre @ n # post \<and> (\<forall>m\<in>set pre. rule (builtin_keys h) m = None) \<longrightarrow>
              compileChecked h code mode filename False = Inl e)"
    using r rule_visit [OF r] n f unfolding Let_def e_def by blast
next
  assume j: "\<not> (take 2 j = ''__'' \<or> j \<in> forbidden_builtins keys)"
  then show "rule keys (Name j c) = None" by (simp add: rule_def)
  from j show "visit_Name keys (Name j c) = generic_visit keys (Name j c)"
    by (simp add: visit_Name.simps [of keys "Name j c"])
  from j show "visit keys (Name j c) = visit keys c" by (simp add: visit_Name_eq)
qed

theorem C1_name_rule_witness:
  "ast_parse example_host ''[open, eval]'' ''<string>'' ''eval'' = Inr tree_open_eval \<and>
   Name ''open'' Load \<in> set (preorder tree_open_eval) \<and>
   ''open'' \<in> forbidden_builtins (builtin_keys example_host) \<and>
   parsed tree_open_eval \<and>
   visit (builtin_keys example_host) (Name ''open'' Load) = Inl (special_name ''open'') \<and>
   compileChecked example_host ''[open, eval]'' ''eval'' ''<string>'' False =
     Inl (special_name ''open'') \<and>
   \<not> (take 2 ''x'' = ''__'' \<or> ''x'' \<in> forbidden_builtins cpython27_builtin_keys) \<and>
   visit cpython27_builtin_keys (Name ''x'' Load) = visit cpython27_builtin_keys Load"
proof -
  let ?l = "Node ''List'' [Items [AST (Name ''open'' Load), AST (Name ''eval'' Load)], AST Load]"
  have a: "ast_parse example_host ''[open, eval]'' ''<string>'' ''eval'' = Inr tree_open_eval"
    by (simp add: example_host_def example_parse_def)
  have p: "preorder tree_open_eval =
      [tree_open_eval, ?l] @ Name ''open'' Load # [Load, Name ''eval'' Load, Load, Load]"
    by (simp add: tree_open_eval_def Load_def)
  have b: "Name ''open'' Load \<in> set (preorder tree_open_eval)"
    by (simp add: p)
  have k: "builtin_keys example_host = cpython27_builtin_keys"
    by (simp add: example_host_def)
  have c: "''open'' \<in> forbidden_builtins (builtin_keys example_host)"
    by (simp add: k open_forbidden)
  have w: "parsed tree_open_eval"
    by (simp add: parsed_def p generic_ok_def tree_open_eval_def Load_def)
  have pre: "\<forall>m\<in>set [tree_open_eval, ?l]. rule (builtin_keys example_host) m = None"
    by (simp add: rule_def tree_open_eval_def forbidden_nodes_def)
  have x: "\<not> (take 2 ''x'' = ''__'' \<or> ''x'' \<in> forbidden_builtins cpython27_builtin_keys)"
    by (simp add: x_y_not_forbidden)
  from C1_name_rule [of example_host "''[open, eval]''" "''<string>''" "''eval''"
      tree_open_eval "Name ''open'' Load" "''open''" Load "[]" "[]" None None "''x''"
      cpython27_builtin_keys] a b c x
  have t: "visit (builtin_keys example_host) (Name ''open'' Load) = Inl (special_name ''open'')"
    "\<forall>pre post. preorder tree_open_eval = pre @ Name ''open'' Load # post \<and>
        (\<forall>m\<in>set pre. rule (builtin_keys example_host) m = None) \<longrightarrow>
        compileChecked example_host ''[open, eval]'' ''eval'' ''<string>'' False =
          Inl (special_name ''open'')"
    "visit cpython27_builtin_keys (Name ''x'' Load) = visit cpython27_builtin_keys Load"
    by (simp_all add: Let_def)
  from t(2) p pre
  have "compileChecked example_host ''[open, eval]'' ''eval'' ''<string>'' False =
      Inl (special_name ''open'')"
    by blast
  with a b c w x t(1) t(3) show ?thesis by blast
qed

theorem C1_counterexample:
  "ast_parse example_host ''[open, eval]'' ''<string>'' ''eval'' = Inr tree_open_eval \<and>
   Name ''eval'' Load \<in> set (preorder tree_open_eval) \<and>
   ''eval'' \<in> forbidden_builtins (builtin_keys example_host) \<and>
   compileChecked example_host ''[open, eval]'' ''eval'' ''<string>'' False =
     Inl (SafeEvalException
       (''Access to special names not allowed: '' @ [CHR 0x22] @ ''open'' @ [CHR 0x22])) \<and>
   \<not> sublist ''eval''
     (''Access to special names not allowed: '' @ [CHR 0x22] @ ''open'' @ [CHR 0x22])"
proof -
  have a: "ast_parse example_host ''[open, eval]'' ''<string>'' ''eval'' = Inr tree_open_eval"
    by (simp add: example_host_def example_parse_def)
  have b: "Name ''eval'' Load \<in> set (preorder tree_open_eval)"
    by (simp add: tree_open_eval_def Load_def)
  have k: "builtin_keys example_host = cpython27_builtin_keys"
    by (simp add: example_host_def)
  have v: "visit cpython27_builtin_keys tree_open_eval = Inl (special_name ''open'')"
    by (simp add: tree_open_eval_def visit_Node_eq visit_Name_eq forbidden_nodes_def
        andthen_def open_forbidden)
  have c: "compileChecked example_host ''[open, eval]'' ''eval'' ''<string>'' False =
     Inl (SafeEvalException
       (''Access to special names not allowed: '' @ [CHR 0x22] @ ''open'' @ [CHR 0x22]))"
    using compileChecked_guard [OF a, of "special_name ''open''"] v k
    by (simp add: special_name_def quoted_def)
  have d: "\<not> sublist ''eval''
     (''Access to special names not allowed: '' @ [CHR 0x22] @ ''open'' @ [CHR 0x22])"
    by code_simp
  from a b c d k eval_forbidden show ?thesis by simp
qed

text \<open>
  C2, as amended. \<^verbatim>\<open>forbidden_nodes\<close> holds the classes Import, ImportFrom, Global and
  Exec. Where the tree of a text has a node of one of these classes, anywhere in the
  tree, \<^verbatim>\<open>compileChecked\<close> without the skip flag raises: its error is the first
  violation of the tree in pre-order, a \<^verbatim>\<open>SafeEvalException\<close> on a tree as the parser
  builds it. The guard at the node itself raises the violation that names the class,
  and \<^verbatim>\<open>compileChecked\<close> raises this one whenever no node before it in pre-order has
  a violation, as for the text \<^verbatim>\<open>import os\<close>.
\<close>

theorem C2_forbidden_nodes:
  "forbidden_nodes = {''Import'', ''ImportFrom'', ''Global'', ''Exec''} \<and>
   (ast_parse h code filename mode = Inr tree \<and> Node k fs \<in> set (preorder tree) \<and>
    k \<in> forbidden_nodes \<longrightarrow>
      (\<exists>e'. compileChecked h code mode filename False = Inl e' \<and>
         first_violation (builtin_keys h) (preorder tree) = Some e' \<and>
         (parsed tree \<longrightarrow> safety_violation e')) \<and>
      rule (builtin_keys h) (Node k fs) = Some (not_safe k) \<and>
      visit (builtin_keys h) (Node k fs) = Inl (not_safe k) \<and>
      generic_visit (builtin_keys h) (Node k fs) = Inl (not_safe k) \<and>
      sublist k (message (not_safe k)) \<and>
      (\<forall>pre post.
         preorder tree = pre @ Node k fs # post \<and>
         (\<forall>m\<in>set pre. rule (builtin_keys h) m = None) \<longrightarrow>
           compileChecked h code mode filename False = Inl (not_safe k))) \<and>
   (ast_parse h ''import os'' filename ''exec'' = Inr tree_import \<longrightarrow>
      compileChecked h ''import os'' ''exec'' filename False = Inl (not_safe ''Import''))"
proof (intro conjI impI)
  show "forbidden_nodes = {''Import'', ''ImportFrom'', ''Global'', ''Exec''}"
    by (auto simp add: forbidden_nodes_def)
next
  assume h: "ast_parse h code filename mode = Inr tree \<and> Node k fs \<in> set (preorder tree) \<and>
    k \<in> forbidden_nodes"
  then have k: "k \<noteq> ''Name''" "k \<noteq> ''Call''" "k \<noteq> ''Attribute''"
    using special_classes_not_forbidden by auto
  with h show r: "rule (builtin_keys h) (Node k fs) = Some (not_safe k)"
    by (simp add: rule_def)
  show "visit (builtin_keys h) (Node k fs) = Inl (not_safe k)"
    using rule_visit [OF r] .
  from h show "generic_visit (builtin_keys h) (Node k fs) = Inl (not_safe k)"
    by (simp add: generic_visit.simps [of "builtin_keys h" "Node k fs"])
  show "sublist k (message (not_safe k))" by (rule names_class)
  obtain e' where e': "visit (builtin_keys h) tree = Inl e'"
    "first_violation (builtin_keys h) (preorder tree) = Some e'"
    "parsed tree \<longrightarrow> safety_violation e'"
    using reject_some [of "Node k fs" tree "builtin_keys h" "not_safe k"] h r by blast
  show "\<exists>e'. compileChecked h code mode filename False = Inl e' \<and>
         first_violation (builtin_keys h) (preorder tree) = Some e' \<and>
         (parsed tree \<longrightarrow> safety_violation e')"
    using e' h compileChecked_guard [of h code filename mode tree e'] by blast
  show "\<forall>pre post.
         preorder tree = pre @ Node k fs # post \<and>
         (\<forall>m\<in>set pre. rule (builtin_keys h) m = None) \<longrightarrow>
           compileChecked h code mode filename False = Inl (not_safe k)"
  proof (intro allI impI)
    fix pre post
    assume "preorder tree = pre @ Node k fs # post \<and>
      (\<forall>m\<in>set pre. rule (builtin_keys h) m = None)"
    then have "visit (builtin_keys h) tree = Inl (not_safe k)"
      using reject_first [of tree pre "Node k fs" post "builtin_keys h" "not_safe k"] r by blast
    then show "compileChecked h code mode filename False = Inl (not_safe k)"
      using h compileChecked_guard [of h code filename mode tree "not_safe k"] by blast
  qed
next
  assume a: "ast_parse h ''import os'' filename ''exec'' = Inr tree_import"
  have "visit (builtin_keys h) tree_import = Inl (not_safe ''Import'')"
    by (simp add: tree_import_def visit_Node_eq forbidden_nodes_def andthen_def)
  then show "compileChecked h ''import os'' ''exec'' filename False = Inl (not_safe ''Import'')"
    using compileChecked_guard [OF a] by simp
qed

theorem C2_forbidden_nodes_witness:
  "ast_parse example_host ''import os'' ''<string>'' ''exec'' = Inr tree_import \<and>
   Node ''Import'' [Items [AST (Node ''alias'' [Leaf ''os'', Leaf ''None''])]]
     \<in> set (preorder tree_import) \<and>
   ''Import'' \<in> forbidden_nodes \<and>
   parsed tree_import \<and>
   rule (builtin_keys example_host) tree_import = None \<and>
   compileChecked example_host ''import os'' ''exec'' ''<string>'' False =
     Inl (SafeEvalException
       (''<class '' @ [CHR 0x27] @ ''_ast.Import'' @ [CHR 0x27] @ ''> not safe''))"
proof -
  let ?i = "Node ''Import'' [Items [AST (Node ''alias'' [Leaf ''os'', Leaf ''None''])]]"
  have a: "ast_parse example_host ''import os'' ''<string>'' ''exec'' = Inr tree_import"
    by (simp add: example_host_def example_parse_def)
  have p: "preorder tree_import =
      [tree_import] @ ?i # [Node ''alias'' [Leaf ''os'', Leaf ''None'']]"
    by (simp add: tree_import_def)
  have b: "?i \<in> set (preorder tree_import)" by (simp add: p)
  have c: "''Import'' \<in> forbidden_nodes" by (simp add: forbidden_nodes_def)
  have w: "parsed tree_import"
    by (simp add: parsed_def p generic_ok_def tree_import_def)
  have r: "rule (builtin_keys example_host) tree_import = None"
    by (simp add: rule_def tree_import_def forbidden_nodes_def)
  then have pre: "\<forall>m\<in>set [tree_import]. rule (builtin_keys example_host) m = None"
    by simp
  from C2_forbidden_nodes [of example_host "''import os''" "''<string>''" "''exec''"
      tree_import "''Import''" "[Items [AST (Node ''alias'' [Leaf ''os'', Leaf ''None''])]]"]
    a b c
  have "\<forall>pre post. preorder tree_import = pre @ ?i # post \<and>
        (\<forall>m\<in>set pre. rule (builtin_keys example_host) m = None) \<longrightarrow>
        compileChecked example_host ''import os'' ''exec'' ''<string>'' False =
          Inl (not_safe ''Import'')"
    by blast
  with p pre
  have "compileChecked example_host ''import os'' ''exec'' ''<string>'' False =
      Inl (not_safe ''Import'')"
    by blast
  then have "compileChecked example_host ''import os'' ''exec'' ''<string>'' False =
     Inl (SafeEvalException
       (''<class '' @ [CHR 0x27] @ ''_ast.Import'' @ [CHR 0x27] @ ''> not safe''))"
    by (simp add: not_safe_def type_repr_def)
  with a b c w r show ?thesis by blast
qed

theorem C2_counterexample:
  "ast_parse example_host ''open; import os'' ''<string>'' ''exec'' = Inr tree_open_import \<and>
   Node ''Import'' [Items [AST (Node ''alias'' [Leaf ''os'', Leaf ''None''])]]
     \<in> set (preorder tree_open_import) \<and>
   ''Import'' \<in> forbidden_nodes \<and>
   compileChecked example_host ''open; import os'' ''exec'' ''<string>'' False =
     Inl (SafeEvalException
       (''Access to special names not allowed: '' @ [CHR 0x22] @ ''open'' @ [CHR 0x22])) \<and>
   \<not> sublist ''Import''
     (''Access to special names not allowed: '' @ [CHR 0x22] @ ''open'' @ [CHR 0x22])"
proof -
  have a: "ast_parse example_host ''open; import os'' ''<string>'' ''exec'' =
      Inr tree_open_import"
    by (simp add: example_host_def example_parse_def)
  have b: "Node ''Import'' [Items [AST (Node ''alias'' [Leaf ''os'', Leaf ''None''])]]
     \<in> set (preorder tree_open_import)"
    by (simp add: tree_open_import_def Load_def)
  have c: "''Import'' \<in> forbidden_nodes" by (simp add: forbidden_nodes_def)
  have k: "builtin_keys example_host = cpython27_builtin_keys"
    by (simp add: example_host_def)
  have v: "visit cpython27_builtin_keys tree_open_import = Inl (special_name ''open'')"
    by (simp add: tree_open_import_def visit_Node_eq visit_Name_eq forbidden_nodes_def
        andthen_def open_forbidden)
  have d: "compileChecked example_host ''open; import os'' ''exec'' ''<string>'' False =
     Inl (SafeEvalException
       (''Access to special names not allowed: '' @ [CHR 0x22] @ ''open'' @ [CHR 0x22]))"
    using compileChecked_guard [OF a, of "special_name ''open''"] v k
    by (simp add: special_name_def quoted_def)
  have e: "\<not> sublist ''Import''
     (''Access to special names not allowed: '' @ [CHR 0x22] @ ''open'' @ [CHR 0x22])"
    by code_simp
  from a b c d e show ?thesis by simp
qed

text \<open>
  C3, as amended. At an attribute access whose member name begins with \<^verbatim>\<open>__\<close>,
  \<^verbatim>\<open>func_\<close>, \<^verbatim>\<open>im_\<close> or \<^verbatim>\<open>tb_\<close> the guard raises the violation that names the member,
  for every base expression: the test comes before the base is visited. Where the tree
  of a text has such an access, \<^verbatim>\<open>compileChecked\<close> without the skip flag raises: its
  error is the first violation of the tree in pre-order, a \<^verbatim>\<open>SafeEvalException\<close> on a
  tree as the parser builds it, and it is the violation naming the member whenever no
  node before the access in pre-order has a violation, as for the text
  \<^verbatim>\<open>x.__class__\<close>.
\<close>

theorem C3_attribute_rule:
  "(reserved_prefix a \<longrightarrow>
      rule keys (Attribute v a c) = Some (special_attribute a) \<and>
      visit keys (Attribute v a c) = Inl (special_attribute a) \<and>
      visit_Attribute keys (Attribute v a c) = Inl (special_attribute a) \<and>
      sublist a (message (special_attribute a))) \<and>
   (ast_parse h code filename mode = Inr tree \<and> Attribute v a c \<in> set (preorder tree) \<and>
    reserved_prefix a \<longrightarrow>
      (\<exists>e'. compileChecked h code mode filename False = Inl e' \<and>
         first_violation (builtin_keys h) (preorder tree) = Some e' \<and>
         (parsed tree \<longrightarrow> safety_violation e')) \<and>
      (\<forall>pre post.
         preorder tree = pre @ Attribute v a c # post \<and>
         (\<forall>m\<in>set pre. rule (builtin_keys h) m = None) \<longrightarrow>
           compileChecked h code mode filename False = Inl (special_attribute a))) \<and>
   (ast_parse h ''x.__class__'' filename ''eval'' = Inr tree_dunder \<longrightarrow>
      compileChecked h ''x.__class__'' ''eval'' filename False =
        Inl (special_attribute ''__class__''))"
proof (intro conjI impI)
  assume a: "reserved_prefix a"
  then show "rule keys (Attribute v a c) = Some (special_attribute a)"
    by (simp add: rule_def reserved_prefix_def)
  from a show "visit keys (Attribute v a c) = Inl (special_attribute a)"
    by (simp add: visit_Attribute_eq reserved_prefix_def)
  from a show "visit_Attribute keys (Attribute v a c) = Inl (special_attribute a)"
    by (simp add: visit_Attribute.simps [of keys "Attribute v a c"] reserved_prefix_def)
  show "sublist a (message (special_attribute a))" by (rule names_identifier)
next
  assume h: "ast_parse h code filename mode = Inr tree \<and>
    Attribute v a c \<in> set (preorder tree) \<and> reserved_prefix a"
  then have r: "rule (builtin_keys h) (Attribute v a c) = Some (special_attribute a)"
    by (simp add: rule_def reserved_prefix_def)
  obtain e' where e': "visit (builtin_keys h) tree = Inl e'"
    "first_violation (builtin_keys h) (preorder tree) = Some e'"
    "parsed tree \<longrightarrow> safety_violation e'"
    using reject_some [of "Attribute v a c" tree "builtin_keys h" "special_attribute a"] h r
    by blast
  show "\<exists>e'. compileChecked h code mode filename False = Inl e' \<and>
         first_violation (builtin_keys h) (preorder tree) = Some e' \<and>
         (parsed tree \<longrightarrow> safety_violation e')"
    using e' h compileChecked_guard [of h code filename mode tree e'] by blast
  show "\<forall>pre post.
         preorder tree = pre @ Attribute v a c # post \<and>
         (\<forall>m\<in>set pre. rule (builtin_keys h) m = None) \<longrightarrow>
           compileChecked h code mode filename False = Inl (special_attribute a)"
  proof (intro allI impI)
    fix pre post
    assume "preorder tree = pre @ Attribute v a c # post \<and>
      (\<forall>m\<in>set pre. rule (builtin_keys h) m = None)"
    then have "visit (builtin_keys h) tree = Inl (special_attribute a)"
      using reject_first [of tree pre "Attribute v a c" post "builtin_keys h"
          "special_attribute a"] r
      by blast
    then show "compileChecked h code mode filename False = Inl (special_attribute a)"
      using h compileChecked_guard [of h code filename mode tree "special_attribute a"] by blast
  qed
next
  assume a: "ast_parse h ''x.__class__'' filename ''eval'' = Inr tree_dunder"
  have "visit (builtin_keys h) tree_dunder = Inl (special_attribute ''__class__'')"
    by (simp add: tree_dunder_def visit_Node_eq visit_Attribute_eq forbidden_nodes_def
        andthen_def)
  then show "compileChecked h ''x.__class__'' ''eval'' filename False =
      Inl (special_attribute ''__class__'')"
    using compileChecked_guard [OF a] by simp
qed

theorem C3_attribute_rule_witness:
  "reserved_prefix ''__class__'' \<and> reserved_prefix ''func_globals'' \<and>
   reserved_prefix ''im_func'' \<and> reserved_prefix ''tb_frame'' \<and>
   visit cpython27_builtin_keys (Attribute (Name ''open'' Load) ''func_globals'' Load) =
     Inl (special_attribute ''func_globals'') \<and>
   ast_parse example_host ''x.__class__'' ''<string>'' ''eval'' = Inr tree_dunder \<and>
   Attribute (Name ''x'' Load) ''__class__'' Load \<in> set (preorder tree_dunder) \<and>
   parsed tree_dunder \<and>
   compileChecked example_host ''x.__class__'' ''eval'' ''<string>'' False =
     Inl (SafeEvalException
       (''Access to special attributes not allowed: '' @ [CHR 0x22] @ ''__class__'' @
        [CHR 0x22]))"
proof -
  let ?a = "Attribute (Name ''x'' Load) ''__class__'' Load"
  have a: "reserved_prefix ''__class__''" "reserved_prefix ''func_globals''"
    "reserved_prefix ''im_func''" "reserved_prefix ''tb_frame''"
    by (simp_all add: reserved_prefix_def)
  have b: "ast_parse example_host ''x.__class__'' ''<string>'' ''eval'' = Inr tree_dunder"
    by (simp add: example_host_def example_parse_def)
  have p: "preorder tree_dunder = [tree_dunder] @ ?a # [Name ''x'' Load, Load, Load]"
    by (simp add: tree_dunder_def Load_def)
  have c: "?a \<in> set (preorder tree_dunder)" by (simp add: p)
  have w: "parsed tree_dunder"
    by (simp add: parsed_def p generic_ok_def tree_dunder_def Load_def)
  have pre: "\<forall>m\<in>set [tree_dunder]. rule (builtin_keys example_host) m = None"
    by (simp add: rule_def tree_dunder_def forbidden_nodes_def)
  from C3_attribute_rule [of "''func_globals''" cpython27_builtin_keys "Name ''open'' Load" Load]
    a(2)
  have t1: "visit cpython27_builtin_keys (Attribute (Name ''open'' Load) ''func_globals'' Load) =
     Inl (special_attribute ''func_globals'')"
    by blast
  from C3_attribute_rule [of "''__class__''" cpython27_builtin_keys "Name ''x'' Load" Load
      example_host "''x.__class__''" "''<string>''" "''eval''" tree_dunder] a(1) b c
  have "\<forall>pre post. preorder tree_dunder = pre @ ?a # post \<and>
        (\<forall>m\<in>set pre. rule (builtin_keys example_host) m = None) \<longrightarrow>
        compileChecked example_host ''x.__class__'' ''eval'' ''<string>'' False =
          Inl (special_attribute ''__class__'')"
    by blast
  with p pre
  have "compileChecked example_host ''x.__class__'' ''eval'' ''<string>'' False =
      Inl (special_attribute ''__class__'')"
    by blast
  then have "compileChecked example_host ''x.__class__'' ''eval'' ''<string>'' False =
     Inl (SafeEvalException
       (''Access to special attributes not allowed: '' @ [CHR 0x22] @ ''__class__'' @
        [CHR 0x22]))"
    by (simp add: special_attribute_def quoted_def)
  with a b c w t1 show ?thesis by blast
qed

theorem C3_counterexample:
  "ast_parse example_host ''[open, x.__class__]'' ''<string>'' ''eval'' =
     Inr tree_open_dunder \<and>
   Attribute (Name ''x'' Load) ''__class__'' Load \<in> set (preorder tree_open_dunder) \<and>
   take 2 ''__class__'' = ''__'' \<and>
   compileChecked example_host ''[open, x.__class__]'' ''eval'' ''<string>'' False =
     Inl (SafeEvalException
       (''Access to special names not allowed: '' @ [CHR 0x22] @ ''open'' @ [CHR 0x22])) \<and>
   \<not> sublist ''__class__''
     (''Access to special names not allowed: '' @ [CHR 0x22] @ ''open'' @ [CHR 0x22])"
proof -
  have a: "ast_parse example_host ''[open, x.__class__]'' ''<string>'' ''eval'' =
      Inr tree_open_dunder"
    by (simp add: example_host_def example_parse_def)
  have b: "Attribute (Name ''x'' Load) ''__class__'' Load \<in> set (preorder tree_open_dunder)"
    by (simp add: tree_open_dunder_def Load_def)
  have k: "builtin_keys example_host = cpython27_builtin_keys"
    by (simp add: example_host_def)
  have v: "visit cpython27_builtin_keys tree_open_dunder = Inl (special_name ''open'')"
    by (simp add: tree_open_dunder_def visit_Node_eq visit_Name_eq forbidden_nodes_def
        andthen_def open_forbidden)
  have d: "compileChecked example_host ''[open, x.__class__]'' ''eval'' ''<string>'' False =
     Inl (SafeEvalException
       (''Access to special names not allowed: '' @ [CHR 0x22] @ ''open'' @ [CHR 0x22]))"
    using compileChecked_guard [OF a, of "special_name ''open''"] v k
    by (simp add: special_name_def quoted_def)
  have e: "\<not> sublist ''__class__''
     (''Access to special names not allowed: '' @ [CHR 0x22] @ ''open'' @ [CHR 0x22])"
    by code_simp
  from a b d e show ?thesis by simp
qed

text \<open>
  C4. A call whose target is not a bare name (\<^verbatim>\<open>hasattr(call.func, 'id')\<close> fails: an
  attribute access, a subscript, any computed expression) makes the guard raise the
  \<^verbatim>\<open>SafeEvalException\<close> "Function has no identifier", whatever the target and the
  arguments are. So does compiling \<^verbatim>\<open>x.upper()\<close> in mode eval without the skip flag,
  although the attribute rule has nothing against \<^verbatim>\<open>upper\<close>: the access
  \<^verbatim>\<open>x.upper\<close> alone passes the guard.
\<close>

theorem C4_call_target:
  "(\<not> hasattr_id f \<longrightarrow>
      visit keys (Call f as ks sa kw) = Inl (SafeEvalException ''Function has no identifier'') \<and>
      visit_Call keys (Call f as ks sa kw) =
        Inl (SafeEvalException ''Function has no identifier'')) \<and>
   (ast_parse h ''x.upper()'' filename ''eval'' = Inr tree_upper \<longrightarrow>
      compileChecked h ''x.upper()'' ''eval'' filename False =
        Inl (SafeEvalException ''Function has no identifier'')) \<and>
   rule keys (Attribute (Name ''x'' Load) ''upper'' Load) = None \<and>
   (''x'' \<notin> forbidden_builtins keys \<longrightarrow>
      visit keys (Attribute (Name ''x'' Load) ''upper'' Load) = Inr ())"
proof (intro conjI impI)
  assume f: "\<not> hasattr_id f"
  then show "visit keys (Call f as ks sa kw) =
      Inl (SafeEvalException ''Function has no identifier'')"
    by (cases f) (simp_all add: visit_Call_eq no_identifier_def)
  from f show "visit_Call keys (Call f as ks sa kw) =
      Inl (SafeEvalException ''Function has no identifier'')"
    by (cases f) (simp_all add: visit_Call_method no_identifier_def)
next
  assume "ast_parse h ''x.upper()'' filename ''eval'' = Inr tree_upper"
  then show "compileChecked h ''x.upper()'' ''eval'' filename False =
      Inl (SafeEvalException ''Function has no identifier'')"
    by (simp add: compileChecked_def tree_upper_def visit_Node_eq visit_Call_eq
        forbidden_nodes_def andthen_def no_identifier_def)
next
  show "rule keys (Attribute (Name ''x'' Load) ''upper'' Load) = None"
    by (simp add: rule_def)
next
  assume "''x'' \<notin> forbidden_builtins keys"
  then show "visit keys (Attribute (Name ''x'' Load) ''upper'' Load) = Inr ()"
    by (simp add: visit_Attribute_eq visit_Name_eq visit_Node_eq Load_def forbidden_nodes_def
        andthen_def)
qed

theorem C4_call_target_witness:
  "\<not> hasattr_id (Attribute (Name ''x'' Load) ''upper'' Load) \<and>
   visit cpython27_builtin_keys (Call (Attribute (Name ''x'' Load) ''upper'' Load) [] [] None None) =
     Inl (SafeEvalException ''Function has no identifier'') \<and>
   ast_parse example_host ''x.upper()'' ''<string>'' ''eval'' = Inr tree_upper \<and>
   compileChecked example_host ''x.upper()'' ''eval'' ''<string>'' False =
     Inl (SafeEvalException ''Function has no identifier'') \<and>
   ''x'' \<notin> forbidden_builtins cpython27_builtin_keys \<and>
   visit cpython27_builtin_keys (Attribute (Name ''x'' Load) ''upper'' Load) = Inr ()"
proof -
  have a: "\<not> hasattr_id (Attribute (Name ''x'' Load) ''upper'' Load)" by simp
  have b: "ast_parse example_host ''x.upper()'' ''<string>'' ''eval'' = Inr tree_upper"
    by (simp add: example_host_def example_parse_def)
  show ?thesis
    using C4_call_target [of "Attribute (Name ''x'' Load) ''upper'' Load"
        cpython27_builtin_keys "[]" "[]" None None example_host "''<string>''"]
      a b x_y_not_forbidden(1)
    by simp
qed

text \<open>
  C5. \<^verbatim>\<open>forbidden_builtins\<close> is the set of the keys of the host's builtin namespace
  minus \<^verbatim>\<open>allowed_builtins\<close>: every builtin name that is not allowed is forbidden, and
  no allowed name is forbidden. \<^verbatim>\<open>open\<close> is not allowed, so it is forbidden on every
  host that has it, and compiling \<^verbatim>\<open>open('/etc/passwd')\<close> without the skip flag
  raises the \<^verbatim>\<open>SafeEvalException\<close> of the call rule, which names \<^verbatim>\<open>open\<close>.
\<close>

theorem C5_forbidden_builtins:
  "forbidden_builtins keys = set keys - allowed_builtins \<and>
   (\<forall>n\<in>set keys. n \<notin> allowed_builtins \<longrightarrow> n \<in> forbidden_builtins keys) \<and>
   (\<forall>n\<in>allowed_builtins. n \<notin> forbidden_builtins keys) \<and>
   (''open'' \<in> set keys \<longrightarrow> ''open'' \<in> forbidden_builtins keys) \<and>
   (''open'' \<in> set (builtin_keys h) \<and>
    ast_parse h ''open('/etc/passwd')'' filename ''eval'' = Inr tree_open \<longrightarrow>
      compileChecked h ''open('/etc/passwd')'' ''eval'' filename False =
        Inl (SafeEvalException
          (''Access to special functions not allowed: '' @ [CHR 0x22] @ ''open'' @ [CHR 0x22])))"
proof -
  have na: "''open'' \<notin> allowed_builtins"
    by (simp add: allowed_builtins_def)
  have "''open'' \<in> forbidden_builtins (builtin_keys h) \<Longrightarrow>
      visit (builtin_keys h) tree_open = Inl (special_function ''open'')"
    by (simp add: tree_open_def visit_Node_eq visit_Call_eq forbidden_nodes_def andthen_def)
  then show ?thesis
    using na
    by (auto simp add: forbidden_builtins_def compileChecked_def special_function_def quoted_def)
qed

theorem C5_forbidden_builtins_witness:
  "''open'' \<in> set cpython27_builtin_keys \<and>
   ''abs'' \<in> set cpython27_builtin_keys \<and> ''abs'' \<in> allowed_builtins \<and>
   ''open'' \<notin> allowed_builtins \<and>
   ''open'' \<in> forbidden_builtins cpython27_builtin_keys \<and>
   ''abs'' \<notin> forbidden_builtins cpython27_builtin_keys \<and>
   ast_parse example_host ''open('/etc/passwd')'' ''<string>'' ''eval'' = Inr tree_open \<and>
   compileChecked example_host ''open('/etc/passwd')'' ''eval'' ''<string>'' False =
     Inl (SafeEvalException
       (''Access to special functions not allowed: '' @ [CHR 0x22] @ ''open'' @ [CHR 0x22]))"
proof -
  have a: "''open'' \<in> set cpython27_builtin_keys" "''abs'' \<in> set cpython27_builtin_keys"
    by (simp_all add: cpython27_builtin_keys_def)
  have b: "''abs'' \<in> allowed_builtins" "''open'' \<notin> allowed_builtins"
    by (simp_all add: allowed_builtins_def)
  have c: "ast_parse example_host ''open('/etc/passwd')'' ''<string>'' ''eval'' = Inr tree_open"
    by (simp add: example_host_def example_parse_def)
  have d: "builtin_keys example_host = cpython27_builtin_keys"
    by (simp add: example_host_def)
  show ?thesis
    using C5_forbidden_builtins [of cpython27_builtin_keys example_host "''<string>''"] a b c d
    by auto
qed

text \<open>
  C6, as amended. With \<^verbatim>\<open>ignoresecurity=True\<close> the guard does not run: the result
  of \<^verbatim>\<open>compileChecked\<close> is the result of parsing and then compiling, whatever the
  guard would say about the tree. A text that parses yields what the host's
  \<^verbatim>\<open>compile\<close> yields for its tree, also when the guard rejects the tree: the code
  object where \<^verbatim>\<open>compile\<close> returns one, and the exception of \<^verbatim>\<open>compile\<close>, unchanged,
  where it raises (the call is outside the \<^verbatim>\<open>try\<close>). A text that does not parse
  still raises the \<^verbatim>\<open>ValueError\<close> of the parse failure.
\<close>

theorem C6_ignoresecurity:
  "compileChecked h code mode filename True =
     (case ast_parse h code filename mode of
        Inl d \<Rightarrow> Inl (ValueError (''Unable to parse file: '' @ d))
      | Inr tree \<Rightarrow> compile_tree h tree filename mode) \<and>
   (ast_parse h code filename mode = Inr tree \<and> compile_tree h tree filename mode = Inr c \<and>
    visit (builtin_keys h) tree = Inl e \<longrightarrow>
      compileChecked h code mode filename True = Inr c \<and>
      compileChecked h code mode filename False = Inl e) \<and>
   (ast_parse h code filename mode = Inr tree \<and> compile_tree h tree filename mode = Inr c \<longrightarrow>
      compileChecked h code mode filename True = Inr c) \<and>
   (ast_parse h code filename mode = Inl d \<longrightarrow>
      compileChecked h code mode filename True =
        Inl (ValueError (''Unable to parse file: '' @ d))) \<and>
   (ast_parse h code filename mode = Inr tree \<and> compile_tree h tree filename mode = Inl x \<longrightarrow>
      compileChecked h code mode filename True = Inl x)"
  by (simp add: compileChecked_def split: sum.split)

theorem C6_ignoresecurity_witness:
  "ast_parse example_host ''import os'' ''<string>'' ''exec'' = Inr tree_import \<and>
   compile_tree example_host tree_import ''<string>'' ''exec'' =
     Inr (tree_import, ''<string>'', ''exec'') \<and>
   visit (builtin_keys example_host) tree_import = Inl (not_safe ''Import'') \<and>
   compileChecked example_host ''import os'' ''exec'' ''<string>'' True =
     Inr (tree_import, ''<string>'', ''exec'') \<and>
   compileChecked example_host ''import os'' ''exec'' ''<string>'' False =
     Inl (not_safe ''Import'') \<and>
   ast_parse example_host ''(1+'' ''<string>'' ''eval'' =
     Inl ''unexpected EOF while parsing (<string>, line 1)'' \<and>
   compileChecked example_host ''(1+'' ''eval'' ''<string>'' True =
     Inl (ValueError ''Unable to parse file: unexpected EOF while parsing (<string>, line 1)'')"
proof -
  have a: "ast_parse example_host ''import os'' ''<string>'' ''exec'' = Inr tree_import"
    by (simp add: example_host_def example_parse_def)
  have b: "compile_tree example_host tree_import ''<string>'' ''exec'' =
      Inr (tree_import, ''<string>'', ''exec'')"
    by (simp add: example_host_def example_compile_def tree_import_def tree_return_def)
  have c: "visit (builtin_keys example_host) tree_import = Inl (not_safe ''Import'')"
    by (simp add: tree_import_def visit_Node_eq forbidden_nodes_def andthen_def)
  have d: "ast_parse example_host ''(1+'' ''<string>'' ''eval'' =
      Inl ''unexpected EOF while parsing (<string>, line 1)''"
    by (simp add: example_host_def example_parse_def)
  show ?thesis
    using C6_ignoresecurity [of example_host "''import os''" "''exec''" "''<string>''"
        tree_import "(tree_import, ''<string>'', ''exec'')" "not_safe ''Import''"
        "''unexpected EOF while parsing (<string>, line 1)''" "not_safe ''Import''"]
      C6_ignoresecurity [of example_host "''(1+''" "''eval''" "''<string>''"
        tree_import "(tree_import, ''<string>'', ''exec'')" "not_safe ''Import''"
        "''unexpected EOF while parsing (<string>, line 1)''" "not_safe ''Import''"]
      a b c d
    by simp
qed

theorem C6_counterexample:
  "ast_parse example_host ''return 1'' ''<string>'' ''exec'' = Inr tree_return \<and>
   compile_tree example_host tree_return ''<string>'' ''exec'' =
     Inl (HostError
       ([CHR 0x27] @ ''return'' @ [CHR 0x27] @ '' outside function (<string>, line 1)'')) \<and>
   compileChecked example_host ''return 1'' ''exec'' ''<string>'' True =
     Inl (HostError
       ([CHR 0x27] @ ''return'' @ [CHR 0x27] @ '' outside function (<string>, line 1)''))"
proof -
  have a: "ast_parse example_host ''return 1'' ''<string>'' ''exec'' = Inr tree_return"
    by (simp add: example_host_def example_parse_def)
  have b: "compile_tree example_host tree_return ''<string>'' ''exec'' =
     Inl (HostError
       ([CHR 0x27] @ ''return'' @ [CHR 0x27] @ '' outside function (<string>, line 1)''))"
    by (simp add: example_host_def example_compile_def)
  from a b have "compileChecked example_host ''return 1'' ''exec'' ''<string>'' True =
     Inl (HostError
       ([CHR 0x27] @ ''return'' @ [CHR 0x27] @ '' outside function (<string>, line 1)''))"
    by (simp add: compileChecked_def)
  with a b show ?thesis by simp
qed

text \<open>
  C7, as amended. For a text that does not parse, \<^verbatim>\<open>compileChecked\<close> raises a
  \<^verbatim>\<open>ValueError\<close>, with or without the skip flag: an error of another kind than
  \<^verbatim>\<open>SafeEvalException\<close>. Its message is \<^verbatim>\<open>Unable to parse file: \<close> followed by the
  text of the parser's exception, and nothing else: \<^verbatim>\<open>compileChecked\<close> hands the
  filename to the parser and does not write it into the message, which has the
  filename where the parser's text has it. For \<^verbatim>\<open>(1+\<close> the message has the filename
  when the parser's text for this input has it.
\<close>

theorem C7_parse_error:
  "(ast_parse h code filename mode = Inl d \<longrightarrow>
      compileChecked h code mode filename skip =
        Inl (ValueError (''Unable to parse file: '' @ d)) \<and>
      \<not> safety_violation (ValueError (''Unable to parse file: '' @ d)) \<and>
      (\<forall>m. compileChecked h code mode filename skip \<noteq> Inl (SafeEvalException m)) \<and>
      sublist d (message (ValueError (''Unable to parse file: '' @ d))) \<and>
      (sublist filename d \<longrightarrow>
         sublist filename (message (ValueError (''Unable to parse file: '' @ d))))) \<and>
   (ast_parse h ''(1+'' filename ''eval'' = Inl d \<and> sublist filename d \<longrightarrow>
      compileChecked h ''(1+'' ''eval'' filename False =
        Inl (ValueError (''Unable to parse file: '' @ d)) \<and>
      sublist filename (''Unable to parse file: '' @ d))"
proof (intro conjI impI allI)
  assume p: "ast_parse h code filename mode = Inl d"
  then show c: "compileChecked h code mode filename skip =
      Inl (ValueError (''Unable to parse file: '' @ d))"
    by (simp add: compileChecked_def)
  show "\<not> safety_violation (ValueError (''Unable to parse file: '' @ d))"
    by (simp add: safety_violation_def)
  show "compileChecked h code mode filename skip \<noteq> Inl (SafeEvalException m)" for m
    using c by simp
  show "sublist d (message (ValueError (''Unable to parse file: '' @ d)))"
    by (simp only: message.simps sublist_after)
  show "sublist filename (message (ValueError (''Unable to parse file: '' @ d)))"
    if "sublist filename d"
    using that by (simp only: message.simps sublist_after_part)
next
  assume p: "ast_parse h ''(1+'' filename ''eval'' = Inl d \<and> sublist filename d"
  then show "compileChecked h ''(1+'' ''eval'' filename False =
      Inl (ValueError (''Unable to parse file: '' @ d))"
    by (simp add: compileChecked_def)
  from p show "sublist filename (''Unable to parse file: '' @ d)"
    by (simp only: sublist_after_part)
qed

theorem C7_parse_error_witness:
  "ast_parse example_host ''(1+'' ''<string>'' ''eval'' =
     Inl ''unexpected EOF while parsing (<string>, line 1)'' \<and>
   sublist ''<string>'' ''unexpected EOF while parsing (<string>, line 1)'' \<and>
   compileChecked example_host ''(1+'' ''eval'' ''<string>'' False =
     Inl (ValueError ''Unable to parse file: unexpected EOF while parsing (<string>, line 1)'') \<and>
   sublist ''<string>''
     ''Unable to parse file: unexpected EOF while parsing (<string>, line 1)''"
proof -
  have a: "ast_parse example_host ''(1+'' ''<string>'' ''eval'' =
      Inl ''unexpected EOF while parsing (<string>, line 1)''"
    by (simp add: example_host_def example_parse_def)
  have b: "sublist ''<string>'' ''unexpected EOF while parsing (<string>, line 1)''"
    by code_simp
  show ?thesis
    using C7_parse_error [of example_host "''(1+''" "''<string>''" "''eval''"
        "''unexpected EOF while parsing (<string>, line 1)''" False] a b
    by simp
qed

theorem C7_counterexample:
  "ast_parse example_host [CHR ''x'', CHR 0x00] ''doc.vsz'' ''eval'' =
     Inl ''compile() expected string without null bytes'' \<and>
   compileChecked example_host [CHR ''x'', CHR 0x00] ''eval'' ''doc.vsz'' False =
     Inl (ValueError ''Unable to parse file: compile() expected string without null bytes'') \<and>
   \<not> sublist ''doc.vsz''
     ''Unable to parse file: compile() expected string without null bytes''"
proof -
  have a: "ast_parse example_host [CHR ''x'', CHR 0x00] ''doc.vsz'' ''eval'' =
      Inl ''compile() expected string without null bytes''"
    by (simp add: example_host_def example_parse_def)
  then have b: "compileChecked example_host [CHR ''x'', CHR 0x00] ''eval'' ''doc.vsz'' False =
     Inl (ValueError ''Unable to parse file: compile() expected string without null bytes'')"
    by (simp add: compileChecked_def)
  have c: "\<not> sublist ''doc.vsz''
     ''Unable to parse file: compile() expected string without null bytes''"
    by code_simp
  from a b c show ?thesis by simp
qed

text \<open>
  C8. The guard is fail-fast. Whenever the nodes of a tree, in depth-first pre-order,
  are \<open>pre @ n # post\<close> with no violation at a node of \<open>pre\<close> and the violation \<open>e\<close>
  at \<open>n\<close>, the result of the guard is exactly \<open>e\<close>, the error that visiting \<open>n\<close> alone
  raises, a \<^verbatim>\<open>SafeEvalException\<close> on a tree as the parser builds it; the nodes visited
  are \<open>pre\<close> and \<open>n\<close>, so no node after \<open>n\<close> is visited. The result is one error, never
  a collection. A tree without a violation passes, every node visited.
\<close>

theorem C8_fail_fast:
  "(\<forall>pre n post e.
      preorder t = pre @ n # post \<and> (\<forall>m\<in>set pre. rule keys m = None) \<and>
      rule keys n = Some e \<longrightarrow>
        visit keys t = Inl e \<and> visit keys n = Inl e \<and> visited keys t = pre @ [n] \<and>
        (parsed t \<longrightarrow> safety_violation e)) \<and>
   ((\<forall>m\<in>set (preorder t). rule keys m = None) \<longrightarrow>
      visit keys t = Inr () \<and> visited keys t = preorder t) \<and>
   ((\<exists>m\<in>set (preorder t). rule keys m \<noteq> None) \<longrightarrow>
      (\<exists>pre n post e. preorder t = pre @ n # post \<and> (\<forall>m\<in>set pre. rule keys m = None) \<and>
         rule keys n = Some e))"
proof (intro conjI allI impI)
  fix pre n post e
  assume h: "preorder t = pre @ n # post \<and> (\<forall>m\<in>set pre. rule keys m = None) \<and>
      rule keys n = Some e"
  then have fv: "first_violation keys (preorder t) = Some e"
    and up: "upto_first keys (preorder t) = pre @ [n]"
    using first_violation_split [of "preorder t" pre n post keys e] by simp_all
  show "visit keys t = Inl e"
    using fv by (simp add: visit_first_violation outcome_def)
  show "visit keys n = Inl e"
    using h by (simp add: rule_visit)
  show "visited keys t = pre @ [n]"
    using up by (simp add: visited_upto_first)
  show "safety_violation e" if "parsed t"
    using that fv first_violation_safety [of "preorder t" keys e] by (simp add: parsed_def)
next
  assume h: "\<forall>m\<in>set (preorder t). rule keys m = None"
  show "visit keys t = Inr ()"
    using first_violation_clean(1) [OF h] by (simp add: visit_first_violation outcome_def)
  show "visited keys t = preorder t"
    using first_violation_clean(2) [OF h] by (simp add: visited_upto_first)
next
  assume "\<exists>m\<in>set (preorder t). rule keys m \<noteq> None"
  then have ex: "\<exists>m\<in>set (preorder t). rule keys m \<noteq> None" .
  have "\<And>ns. \<exists>m\<in>set ns. rule keys m \<noteq> None \<Longrightarrow>
      \<exists>pre n post e. ns = pre @ n # post \<and> (\<forall>m\<in>set pre. rule keys m = None) \<and>
         rule keys n = Some e"
  proof -
    fix ns
    assume "\<exists>m\<in>set ns. rule keys m \<noteq> None"
    then have d: "dropWhile (\<lambda>m. rule keys m = None) ns \<noteq> []"
      by (auto simp add: dropWhile_eq_Nil_conv)
    then obtain n post where dn: "dropWhile (\<lambda>m. rule keys m = None) ns = n # post"
      by (cases "dropWhile (\<lambda>m. rule keys m = None) ns") auto
    then have "rule keys n \<noteq> None"
      using hd_dropWhile [of "\<lambda>m. rule keys m = None" ns] d by simp
    then obtain e where e: "rule keys n = Some e" by auto
    have "ns = takeWhile (\<lambda>m. rule keys m = None) ns @ n # post"
      using dn takeWhile_dropWhile_id [of "\<lambda>m. rule keys m = None" ns] by simp
    moreover have "\<forall>m\<in>set (takeWhile (\<lambda>m. rule keys m = None) ns). rule keys m = None"
      by (auto dest: set_takeWhileD)
    ultimately show "\<exists>pre n post e. ns = pre @ n # post \<and>
        (\<forall>m\<in>set pre. rule keys m = None) \<and> rule keys n = Some e"
      using e by blast
  qed
  from this [OF ex]
  show "\<exists>pre n post e. preorder t = pre @ n # post \<and> (\<forall>m\<in>set pre. rule keys m = None) \<and>
         rule keys n = Some e" .
qed

theorem C8_fail_fast_witness:
  "preorder tree_open_dunder =
     [tree_open_dunder,
      Node ''List''
        [Items [AST (Name ''open'' Load), AST (Attribute (Name ''x'' Load) ''__class__'' Load)],
         AST Load]] @
     Name ''open'' Load #
       [Load, Attribute (Name ''x'' Load) ''__class__'' Load, Name ''x'' Load, Load, Load, Load] \<and>
   rule cpython27_builtin_keys tree_open_dunder = None \<and>
   rule cpython27_builtin_keys (Name ''open'' Load) = Some (special_name ''open'') \<and>
   rule cpython27_builtin_keys (Attribute (Name ''x'' Load) ''__class__'' Load) =
     Some (special_attribute ''__class__'') \<and>
   parsed tree_open_dunder \<and>
   visit cpython27_builtin_keys tree_open_dunder = Inl (special_name ''open'') \<and>
   visited cpython27_builtin_keys tree_open_dunder =
     [tree_open_dunder,
      Node ''List''
        [Items [AST (Name ''open'' Load), AST (Attribute (Name ''x'' Load) ''__class__'' Load)],
         AST Load],
      Name ''open'' Load] \<and>
   safety_violation (special_name ''open'')"
proof -
  let ?l = "Node ''List''
        [Items [AST (Name ''open'' Load), AST (Attribute (Name ''x'' Load) ''__class__'' Load)],
         AST Load]"
  let ?post = "[Load, Attribute (Name ''x'' Load) ''__class__'' Load, Name ''x'' Load, Load,
    Load, Load]"
  have p: "preorder tree_open_dunder = [tree_open_dunder, ?l] @ Name ''open'' Load # ?post"
    by (simp add: tree_open_dunder_def Load_def)
  have r1: "rule cpython27_builtin_keys tree_open_dunder = None"
    by (simp add: rule_def tree_open_dunder_def forbidden_nodes_def)
  have r2: "rule cpython27_builtin_keys ?l = None"
    by (simp add: rule_def forbidden_nodes_def)
  have r3: "rule cpython27_builtin_keys (Name ''open'' Load) = Some (special_name ''open'')"
    by (simp add: rule_def open_forbidden)
  have r4: "rule cpython27_builtin_keys (Attribute (Name ''x'' Load) ''__class__'' Load) =
     Some (special_attribute ''__class__'')"
    by (simp add: rule_def)
  have w: "parsed tree_open_dunder"
    by (simp add: parsed_def p generic_ok_def tree_open_dunder_def Load_def)
  have pre: "\<forall>m\<in>set [tree_open_dunder, ?l]. rule cpython27_builtin_keys m = None"
    using r1 r2 by simp
  from C8_fail_fast [of tree_open_dunder cpython27_builtin_keys] p pre r3 w
  have "visit cpython27_builtin_keys tree_open_dunder = Inl (special_name ''open'') \<and>
    visited cpython27_builtin_keys tree_open_dunder = [tree_open_dunder, ?l] @ [Name ''open'' Load]
    \<and> safety_violation (special_name ''open'')"
    by blast
  with p r1 r3 r4 w show ?thesis by simp
qed

text \<open>
  C9. A node that is not of a forbidden class and is not a name reference, a call or
  an attribute access is permitted: the guard raises nothing at the node and goes on
  into its fields, so its result at the node is its result on the parts, which is the
  first violation among them in pre-order, or none. The tree of \<^verbatim>\<open>x + y * 2\<close> has only
  such nodes and the names \<^verbatim>\<open>x\<close> and \<^verbatim>\<open>y\<close>; where these are not builtin names
  of the host, compiling the text in mode eval without the skip flag returns the code
  object that the host's \<^verbatim>\<open>compile\<close> returns for the tree.
\<close>

theorem C9_default_continuation:
  "(k \<notin> forbidden_nodes \<and> k \<noteq> ''Name'' \<and> k \<noteq> ''Call'' \<and> k \<noteq> ''Attribute'' \<longrightarrow>
      rule keys (Node k fs) = None \<and>
      visit keys (Node k fs) = visit_fields keys fs \<and>
      generic_visit keys (Node k fs) = visit_fields keys fs \<and>
      visit keys (Node k fs) = outcome (first_violation keys (preorder_fields fs)) \<and>
      visited keys (Node k fs) = Node k fs # visited_fields keys fs) \<and>
   (ast_parse h ''x + y * 2'' filename ''eval'' = Inr tree_arith \<and>
    ''x'' \<notin> set (builtin_keys h) \<and> ''y'' \<notin> set (builtin_keys h) \<and>
    compile_tree h tree_arith filename ''eval'' = Inr c \<longrightarrow>
      visit (builtin_keys h) tree_arith = Inr () \<and>
      compileChecked h ''x + y * 2'' ''eval'' filename False = Inr c)"
proof (intro conjI impI)
  assume k: "k \<notin> forbidden_nodes \<and> k \<noteq> ''Name'' \<and> k \<noteq> ''Call'' \<and> k \<noteq> ''Attribute''"
  then show "rule keys (Node k fs) = None" by (simp add: rule_def)
  from k show v: "visit keys (Node k fs) = visit_fields keys fs" by (simp add: visit_Node_eq)
  from k show "generic_visit keys (Node k fs) = visit_fields keys fs"
    by (simp add: generic_visit.simps [of keys "Node k fs"])
  from v show "visit keys (Node k fs) = outcome (first_violation keys (preorder_fields fs))"
    by (simp add: visit_first_violation(2))
  from k show "visited keys (Node k fs) = Node k fs # visited_fields keys fs" by simp
next
  assume h: "ast_parse h ''x + y * 2'' filename ''eval'' = Inr tree_arith \<and>
    ''x'' \<notin> set (builtin_keys h) \<and> ''y'' \<notin> set (builtin_keys h) \<and>
    compile_tree h tree_arith filename ''eval'' = Inr c"
  then show v: "visit (builtin_keys h) tree_arith = Inr ()"
    by (simp add: tree_arith_def Load_def visit_Node_eq visit_Name_eq forbidden_nodes_def
        forbidden_builtins_def andthen_def)
  with h show "compileChecked h ''x + y * 2'' ''eval'' filename False = Inr c"
    by (simp add: compileChecked_def)
qed

theorem C9_default_continuation_witness:
  "''BinOp'' \<notin> forbidden_nodes \<and>
   visit cpython27_builtin_keys
     (Node ''BinOp'' [AST (Name ''x'' Load), AST (Node ''Add'' []), AST (Name ''eval'' Load)]) =
     visit_fields cpython27_builtin_keys
       [AST (Name ''x'' Load), AST (Node ''Add'' []), AST (Name ''eval'' Load)] \<and>
   visit_fields cpython27_builtin_keys
       [AST (Name ''x'' Load), AST (Node ''Add'' []), AST (Name ''eval'' Load)] =
     Inl (special_name ''eval'') \<and>
   ast_parse example_host ''x + y * 2'' ''<string>'' ''eval'' = Inr tree_arith \<and>
   ''x'' \<notin> set (builtin_keys example_host) \<and> ''y'' \<notin> set (builtin_keys example_host) \<and>
   compile_tree example_host tree_arith ''<string>'' ''eval'' =
     Inr (tree_arith, ''<string>'', ''eval'') \<and>
   compileChecked example_host ''x + y * 2'' ''eval'' ''<string>'' False =
     Inr (tree_arith, ''<string>'', ''eval'')"
proof -
  have a: "''BinOp'' \<notin> forbidden_nodes" by (simp add: forbidden_nodes_def)
  have b: "ast_parse example_host ''x + y * 2'' ''<string>'' ''eval'' = Inr tree_arith"
    by (simp add: example_host_def example_parse_def)
  have c: "''x'' \<notin> set (builtin_keys example_host)" "''y'' \<notin> set (builtin_keys example_host)"
    by (simp_all add: example_host_def cpython27_builtin_keys_def)
  have d: "compile_tree example_host tree_arith ''<string>'' ''eval'' =
      Inr (tree_arith, ''<string>'', ''eval'')"
    by (simp add: example_host_def example_compile_def tree_arith_def tree_return_def)
  have e: "visit_fields cpython27_builtin_keys
       [AST (Name ''x'' Load), AST (Node ''Add'' []), AST (Name ''eval'' Load)] =
     Inl (special_name ''eval'')"
    by (simp add: visit_Name_eq visit_Node_eq Load_def forbidden_nodes_def andthen_def
        x_y_not_forbidden eval_forbidden)
  show ?thesis
    using C9_default_continuation [of "''BinOp''" cpython27_builtin_keys
        "[AST (Name ''x'' Load), AST (Node ''Add'' []), AST (Name ''eval'' Load)]"
        example_host "''<string>''" "(tree_arith, ''<string>'', ''eval'')"]
      a b c d e
    by simp
qed

text \<open>
  C10. The attribute rule looks at the prefixes of the member name only, never at
  \<^verbatim>\<open>forbidden_builtins\<close>: at an access whose member name has none of the prefixes
  \<^verbatim>\<open>__\<close>, \<^verbatim>\<open>func_\<close>, \<^verbatim>\<open>im_\<close>, \<^verbatim>\<open>tb_\<close> the guard raises nothing, whether the member
  name is a forbidden builtin name or not, and its result is its result on the base
  and the context. Where \<^verbatim>\<open>open\<close> is forbidden as a name, the access of the member
  \<^verbatim>\<open>open\<close> has no violation on any base: the guard's result on the access is its
  result on the base alone, so \<^verbatim>\<open>x.open\<close> passes.
\<close>

theorem C10_attribute_prefixes_only:
  "(\<not> reserved_prefix a \<longrightarrow>
      rule keys (Attribute v a c) = None \<and>
      visit keys (Attribute v a c) = andthen (visit keys v) (visit keys c) \<and>
      (visit keys v = Inr () \<and> visit keys c = Inr () \<longrightarrow>
         visit keys (Attribute v a c) = Inr ())) \<and>
   (''open'' \<in> forbidden_builtins keys \<longrightarrow>
      rule keys (Attribute v ''open'' Load) = None \<and>
      visit keys (Attribute v ''open'' Load) = visit keys v \<and>
      visit keys (Name ''open'' Load) = Inl (special_name ''open''))"
proof (intro conjI impI)
  assume a: "\<not> reserved_prefix a"
  then show "rule keys (Attribute v a c) = None"
    by (simp add: rule_def reserved_prefix_def)
  from a show "visit keys (Attribute v a c) = andthen (visit keys v) (visit keys c)"
    by (simp add: visit_Attribute_eq reserved_prefix_def)
  then show "visit keys (Attribute v a c) = Inr ()"
    if "visit keys v = Inr () \<and> visit keys c = Inr ()"
    using that by (simp add: andthen_def)
next
  assume h: "''open'' \<in> forbidden_builtins keys"
  show "rule keys (Attribute v ''open'' Load) = None"
    by (simp add: rule_def)
  show "visit keys (Attribute v ''open'' Load) = visit keys v"
    by (cases "visit keys v")
      (simp_all add: visit_Attribute_eq visit_Node_eq Load_def forbidden_nodes_def andthen_def)
  from h show "visit keys (Name ''open'' Load) = Inl (special_name ''open'')"
    by (simp add: visit_Name_eq)
qed

theorem C10_attribute_prefixes_only_witness:
  "\<not> reserved_prefix ''open'' \<and>
   ''open'' \<in> forbidden_builtins cpython27_builtin_keys \<and>
   visit cpython27_builtin_keys (Name ''x'' Load) = Inr () \<and>
   visit cpython27_builtin_keys Load = Inr () \<and>
   rule cpython27_builtin_keys (Attribute (Name ''x'' Load) ''open'' Load) = None \<and>
   visit cpython27_builtin_keys (Attribute (Name ''x'' Load) ''open'' Load) = Inr () \<and>
   visit cpython27_builtin_keys (Name ''open'' Load) = Inl (special_name ''open'')"
proof -
  have a: "\<not> reserved_prefix ''open''" by (simp add: reserved_prefix_def)
  have b: "visit cpython27_builtin_keys Load = Inr ()"
    by (simp add: Load_def visit_Node_eq forbidden_nodes_def)
  have c: "visit cpython27_builtin_keys (Name ''x'' Load) = Inr ()"
    by (simp add: visit_Name_eq x_y_not_forbidden b)
  show ?thesis
    using C10_attribute_prefixes_only [of "''open''" cpython27_builtin_keys "Name ''x'' Load" Load]
      a b c open_forbidden
    by (simp add: andthen_def)
qed

end
